theory Spec2Isabelle
  imports Complex_Main
begin

section \<open>The rating function (\<open>calcolaELO\<close>, src/database/database.js)\<close>

text \<open>
  A JavaScript number is an IEEE 754 double.  The function is embedded twice.

  \<^item> \<open>calcolaELO\<close>, in this section, reads every operation as the exact operation on
    real numbers.  \<open>createPartita\<close> is modelled with this reading.  At equal ratings that
    are integers or half-integers below \<open>2 ^ 51\<close>, as in the matches on \<open>scenario1\<close>, on
    \<open>scenario_dispari\<close> and on the sample data, each double operation is exact and the
    two readings give the same result (lemmas \<open>calcolaELO_double_esatto_vittoria\<close> and
    \<open>calcolaELO_double_esatto_sconfitta\<close>).  The one evaluation at unequal ratings,
    lemma \<open>calcolaELO_1516_1484\<close>, is in the exact reading.
  \<^item> \<open>calcolaELO_double\<close>, in the next section, rounds the result of every operation to
    a double, as the machine does.  The properties of the rating function over all its
    inputs are stated on it.

  \<open>Math.round(x)\<close> is the integer closest to \<open>x\<close>, and of two equally close integers the
  one closer to plus infinity, that is \<open>floor (x + 1/2)\<close>.
\<close>

definition Math_round :: "real \<Rightarrow> int" where
  "Math_round x = \<lfloor>x + 1 / 2\<rfloor>"

definition Math_pow :: "real \<Rightarrow> real \<Rightarrow> real" where
  "Math_pow b x = b powr x"

text \<open>\<open>const atteso = 1 / (1 + Math.pow(10, (eloB - eloA) / 400))\<close>\<close>

definition atteso :: "real \<Rightarrow> real \<Rightarrow> real" where
  "atteso eloA eloB = 1 / (1 + Math_pow 10 ((eloB - eloA) / 400))"

text \<open>\<open>return Math.round(eloA + k * (risultato - atteso))\<close>\<close>

definition calcolaELO :: "real \<Rightarrow> real \<Rightarrow> real \<Rightarrow> real \<Rightarrow> int" where
  "calcolaELO eloA eloB risultato k =
     Math_round (eloA + k * (risultato - atteso eloA eloB))"


section \<open>The rating function on IEEE doubles\<close>

text \<open>
  A double is a finite number, plus or minus infinity, or NaN.  A finite double is
  modelled by the real number it denotes; the two zeros are one value (at both of them
  \<open>Math.pow(10, x)\<close> is 1 and \<open>Math.round\<close> returns a zero).
\<close>

datatype number = Finite real | PInf | NInf | NaN

text \<open>
  The largest finite double, \<open>Number.MAX_VALUE\<close>.
\<close>

definition max_double :: real where
  "max_double = (2 ^ 53 - 1) * 2 ^ 971"

text \<open>
  The integer nearest to \<open>m\<close>, a tie going to the even one.
\<close>

definition round_half_even :: "real \<Rightarrow> int" where
  "round_half_even m =
     (let n = \<lfloor>m\<rfloor>; d = m - of_int n
      in if d < 1 / 2 then n
         else if 1 / 2 < d then n + 1
         else if even n then n else n + 1)"

text \<open>
  The result of an arithmetic operation is the double nearest to the exact result.
  Around a real \<open>x\<close> whose binary exponent is \<open>e\<close> (at least -1022, where the subnormal
  numbers begin) the doubles are the integer multiples of \<open>2 ^ (e - 52)\<close>; \<open>fl x\<close> is the
  nearest of them, a tie going to the even multiple, and a result beyond \<open>max_double\<close>
  is an infinity.
\<close>

definition ulp_exp :: "real \<Rightarrow> int" where
  "ulp_exp x = max \<lfloor>log 2 \<bar>x\<bar>\<rfloor> (- 1022) - 52"

definition fl :: "real \<Rightarrow> number" where
  "fl x =
     (if x = 0 then Finite 0
      else
        let q = 2 powr of_int (ulp_exp x);
            y = of_int (round_half_even (x / q)) * q
        in if max_double < y then PInf
           else if y < - max_double then NInf
           else Finite y)"

text \<open>
  The operators \<open>-\<close> (unary and binary), \<open>+\<close>, \<open>*\<close> and \<open>/\<close> on numbers.
\<close>

fun num_neg :: "number \<Rightarrow> number" where
  "num_neg (Finite a) = Finite (- a)"
| "num_neg PInf = NInf"
| "num_neg NInf = PInf"
| "num_neg NaN = NaN"

fun num_add :: "number \<Rightarrow> number \<Rightarrow> number" where
  "num_add NaN b = NaN"
| "num_add a NaN = NaN"
| "num_add (Finite a) (Finite b) = fl (a + b)"
| "num_add PInf NInf = NaN"
| "num_add NInf PInf = NaN"
| "num_add PInf b = PInf"
| "num_add NInf b = NInf"
| "num_add a PInf = PInf"
| "num_add a NInf = NInf"

definition num_sub :: "number \<Rightarrow> number \<Rightarrow> number" where
  "num_sub a b = num_add a (num_neg b)"

fun segno :: "number \<Rightarrow> int" where
  "segno (Finite a) = (if a = 0 then 0 else if 0 < a then 1 else - 1)"
| "segno PInf = 1"
| "segno NInf = - 1"
| "segno NaN = 0"

definition infinito :: "int \<Rightarrow> number" where
  "infinito s = (if s = 0 then NaN else if 0 < s then PInf else NInf)"

fun num_mul :: "number \<Rightarrow> number \<Rightarrow> number" where
  "num_mul NaN b = NaN"
| "num_mul a NaN = NaN"
| "num_mul (Finite a) (Finite b) = fl (a * b)"
| "num_mul a b = infinito (segno a * segno b)"

fun num_div :: "number \<Rightarrow> number \<Rightarrow> number" where
  "num_div NaN b = NaN"
| "num_div a NaN = NaN"
| "num_div (Finite a) (Finite b) = (if b = 0 then infinito (segno (Finite a)) else fl (a / b))"
| "num_div (Finite a) b = Finite 0"
| "num_div a (Finite b) = infinito (segno a * (if b < 0 then - 1 else 1))"
| "num_div a b = NaN"

text \<open>
  \<open>Math.round\<close> on a number: an infinity and NaN are returned as they are.
\<close>

fun Math_round_d :: "number \<Rightarrow> number" where
  "Math_round_d (Finite y) = Finite (of_int \<lfloor>y + 1 / 2\<rfloor>)"
| "Math_round_d a = a"

text \<open>
  \<open>Math.pow(10, x)\<close>.  The language fixes the result 1 for an exponent that is zero and
  leaves the other results to an approximation chosen by the implementation, which is
  the parameter \<open>pw\<close> here.
\<close>

definition Math_pow10 :: "(number \<Rightarrow> number) \<Rightarrow> number \<Rightarrow> number" where
  "Math_pow10 pw z = (if z = Finite 0 then Finite 1 else pw z)"

text \<open>
  \<open>const atteso = 1 / (1 + Math.pow(10, (eloB - eloA) / 400))\<close>
\<close>

definition atteso_double :: "(number \<Rightarrow> number) \<Rightarrow> real \<Rightarrow> real \<Rightarrow> number" where
  "atteso_double pw eloA eloB =
     num_div (Finite 1)
       (num_add (Finite 1)
          (Math_pow10 pw (num_div (num_sub (Finite eloB) (Finite eloA)) (Finite 400))))"

text \<open>
  The argument of \<open>Math.round\<close>: \<open>eloA + k * (risultato - atteso)\<close>.
\<close>

definition valore_double :: "(number \<Rightarrow> number) \<Rightarrow> real \<Rightarrow> real \<Rightarrow> real \<Rightarrow> real \<Rightarrow> number" where
  "valore_double pw eloA eloB risultato k =
     num_add (Finite eloA)
       (num_mul (Finite k) (num_sub (Finite risultato) (atteso_double pw eloA eloB)))"

text \<open>
  \<open>return Math.round(eloA + k * (risultato - atteso))\<close>
\<close>

definition calcolaELO_double :: "(number \<Rightarrow> number) \<Rightarrow> real \<Rightarrow> real \<Rightarrow> real \<Rightarrow> real \<Rightarrow> number" where
  "calcolaELO_double pw eloA eloB risultato k =
     Math_round_d (valore_double pw eloA eloB risultato k)"


text \<open>
  One such implementation: the power rounded to the nearest double.
\<close>

definition pow_corretto :: "number \<Rightarrow> number" where
  "pow_corretto z =
     (case z of Finite x \<Rightarrow> fl (10 powr x) | PInf \<Rightarrow> PInf | NInf \<Rightarrow> Finite 0 | NaN \<Rightarrow> NaN)"

section \<open>The store (\<open>createTables\<close>)\<close>

text \<open>
  The two tables of \<open>createTables\<close>, each a list of rows in insertion order, with the
  \<open>AUTO_INCREMENT\<close> counter of its \<open>id\<close> column.  The columns \<open>creato\<close>, \<open>aggiornato\<close> and
  \<open>data\<close> hold timestamps that no operation below reads; they are left out.  \<open>elo\<close> holds
  the number the code sends in \<open>SET elo = ?\<close>; the column is declared \<open>INT\<close>, and what
  the server makes of a number that is not an integer is not in the source.  The three
  counters are unbounded integers (the columns are 32-bit, far out of reach of one
  increment per match).
\<close>

datatype ruolo = portiere | attaccante

record giocatore =
  id_g :: nat
  nome :: string
  ruolo :: ruolo
  elo :: real
  partite :: int
  vittorie :: int
  sconfitte :: int

record partita =
  id_p :: nat
  squadra1 :: "nat \<times> nat"
  squadra2 :: "nat \<times> nat"
  vincitore :: int

record db =
  t_giocatori :: "giocatore list"
  giocatori_auto :: nat
  t_partite :: "partita list"
  partite_auto :: nat

text \<open>The tables right after \<open>createTables\<close> on a fresh database.\<close>

definition vuoto :: db where
  "vuoto = \<lparr>t_giocatori = [], giocatori_auto = 1, t_partite = [], partite_auto = 1\<rparr>"

text \<open>
  The errors the operations throw, named as in the specification:
  \<^item> \<open>UnknownPlayer\<close> is \<open>Error('Uno o piu giocatori non esistono')\<close>,
  \<^item> \<open>DuplicatePlayer\<close> is \<open>Error('Giocatore gia esistente')\<close>,
  \<^item> \<open>OperationForbidden\<close> is \<open>Error('Reset database non consentito in produzione')\<close>,
  \<^item> \<open>StoreError n\<close> is an error the driver raises at the n-th call of the operation
    (connection lost, timeout, lock conflict, constraint violation).
\<close>

datatype errore = UnknownPlayer | DuplicatePlayer | OperationForbidden | StoreError nat

text \<open>
  Which driver calls fail is not decided by the code; it is a parameter of every
  operation: \<open>f n\<close> says that the n-th driver call of the operation raises.
\<close>

type_synonym guasti = "nat \<Rightarrow> bool"

definition nessun_guasto :: guasti where
  "nessun_guasto = (\<lambda>n. False)"

subsection \<open>The SQL statements\<close>

text \<open>\<open>SELECT id, elo FROM giocatori WHERE id IN (?, ?, ?, ?)\<close>\<close>

definition SELECT_id_elo :: "db \<Rightarrow> nat list \<Rightarrow> (nat \<times> real) list" where
  "SELECT_id_elo d ids =
     map (\<lambda>g. (id_g g, elo g)) (filter (\<lambda>g. id_g g \<in> set ids) (t_giocatori d))"

text \<open>
  \<open>UPDATE giocatori SET elo = ?, partite = partite + 1, vittorie = vittorie + ?,
  sconfitte = sconfitte + ? WHERE id = ?\<close>
\<close>

definition UPDATE_giocatori :: "real \<Rightarrow> int \<Rightarrow> int \<Rightarrow> nat \<Rightarrow> db \<Rightarrow> db" where
  "UPDATE_giocatori nuovoElo v s i d =
     d\<lparr>t_giocatori :=
         map (\<lambda>g. if id_g g = i
                  then g\<lparr>elo := nuovoElo, partite := partite g + 1,
                         vittorie := vittorie g + v, sconfitte := sconfitte g + s\<rparr>
                  else g)
             (t_giocatori d)\<rparr>"

text \<open>
  \<open>INSERT INTO partite (squadra1, squadra2, vincitore, data) VALUES (?, ?, ?, NOW())\<close>;
  the table has \<open>CHECK (vincitore IN (1, 2))\<close>.
\<close>

definition CHECK_vincitore :: "int \<Rightarrow> bool" where
  "CHECK_vincitore v = (v = 1 \<or> v = 2)"

definition INSERT_partite :: "nat \<times> nat \<Rightarrow> nat \<times> nat \<Rightarrow> int \<Rightarrow> db \<Rightarrow> db" where
  "INSERT_partite sq1 sq2 v d =
     d\<lparr>t_partite := t_partite d @
           [\<lparr>id_p = partite_auto d, squadra1 = sq1, squadra2 = sq2, vincitore = v\<rparr>],
       partite_auto := Suc (partite_auto d)\<rparr>"

text \<open>\<open>INSERT INTO giocatori (nome, ruolo, elo, partite, vittorie, sconfitte) VALUES (...)\<close>\<close>

definition INSERT_giocatori :: "string \<Rightarrow> ruolo \<Rightarrow> real \<Rightarrow> int \<Rightarrow> int \<Rightarrow> int \<Rightarrow> db \<Rightarrow> db" where
  "INSERT_giocatori n r e p v s d =
     d\<lparr>t_giocatori := t_giocatori d @
           [\<lparr>id_g = giocatori_auto d, nome = n, ruolo = r, elo = e,
             partite = p, vittorie = v, sconfitte = s\<rparr>],
       giocatori_auto := Suc (giocatori_auto d)\<rparr>"

text \<open>
  \<open>INSERT INTO giocatori (nome, ruolo) VALUES (?, ?)\<close>: the other columns take the
  defaults of the table, \<open>elo INT DEFAULT 1500\<close> and \<open>DEFAULT 0\<close> for the three counters.
\<close>

definition INSERT_giocatori_default :: "string \<Rightarrow> ruolo \<Rightarrow> db \<Rightarrow> db" where
  "INSERT_giocatori_default n r d = INSERT_giocatori n r 1500 0 0 0 d"

text \<open>\<open>TRUNCATE TABLE\<close> empties the table and resets its counter.\<close>

definition TRUNCATE_partite :: "db \<Rightarrow> db" where
  "TRUNCATE_partite d = d\<lparr>t_partite := [], partite_auto := 1\<rparr>"

definition TRUNCATE_giocatori :: "db \<Rightarrow> db" where
  "TRUNCATE_giocatori d = d\<lparr>t_giocatori := [], giocatori_auto := 1\<rparr>"

text \<open>SQL \<open>LOWER\<close>, on the ASCII letters.\<close>

definition LOWER :: "string \<Rightarrow> string" where
  "LOWER = map (\<lambda>c. let n = (of_char c :: nat)
                     in if 65 \<le> n \<and> n \<le> 90 then char_of (n + 32) else c)"

subsection \<open>A connection and its transaction\<close>

text \<open>
  \<open>createPartita\<close> works on a connection of its own.  \<open>beginTransaction\<close> takes a working
  copy of the tables; statements executed on the connection read and change the working
  copy; \<open>commit\<close> makes the working copy the store; \<open>rollback\<close> drops it, and so does
  \<open>end\<close>.  Without a transaction a statement changes the store at once.  This is the
  behaviour of one connection to the transactional tables (\<open>ENGINE=InnoDB\<close>) the source
  creates; other connections are not modelled.
\<close>

record connection =
  store :: db
  transaction :: "db option"

definition createConnection :: "db \<Rightarrow> connection" where
  "createConnection s = \<lparr>store = s, transaction = None\<rparr>"

definition beginTransaction :: "connection \<Rightarrow> connection" where
  "beginTransaction c = c\<lparr>transaction := Some (store c)\<rparr>"

definition vista :: "connection \<Rightarrow> db" where
  "vista c = (case transaction c of None \<Rightarrow> store c | Some w \<Rightarrow> w)"

definition execute :: "(db \<Rightarrow> db) \<Rightarrow> connection \<Rightarrow> connection" where
  "execute u c =
     (case transaction c of
        None \<Rightarrow> c\<lparr>store := u (store c)\<rparr>
      | Some w \<Rightarrow> c\<lparr>transaction := Some (u w)\<rparr>)"

definition commit :: "connection \<Rightarrow> connection" where
  "commit c =
     (case transaction c of
        None \<Rightarrow> c
      | Some w \<Rightarrow> c\<lparr>store := w, transaction := None\<rparr>)"

definition rollback :: "connection \<Rightarrow> connection" where
  "rollback c = c\<lparr>transaction := None\<rparr>"

definition end_connection :: "connection \<Rightarrow> db" where
  "end_connection c = store c"

section \<open>Recording a match (\<open>createPartita\<close>)\<close>

text \<open>
  A team is a pair of player identifiers: the route \<open>POST /partite\<close> passes on only
  arrays of length two.  The object returned on success has the fields of the inserted
  row and the two deltas of \<open>elo_changes\<close>.
\<close>

record esito = partita +
  squadra1_delta :: real
  squadra2_delta :: real

text \<open>\<open>giocatori.forEach(g => { eloMap[g.id] = g.elo; })\<close>\<close>

definition crea_eloMap :: "(nat \<times> real) list \<Rightarrow> (nat \<rightharpoonup> real)" where
  "crea_eloMap giocatori = foldl (\<lambda>m g. m(fst g \<mapsto> snd g)) Map.empty giocatori"

text \<open>
  One of the two iterations \<open>for (const giocatoreId of squadra) { ... UPDATE ... }\<close>;
  \<open>n\<close> numbers the driver call.  A key missing from \<open>eloMap\<close> would make \<open>nuovoElo\<close> not a
  number, which the statement cannot take; after the four-row check this does not
  happen when \<open>id\<close> is a key of the table (lemma \<open>eloMap_definita\<close>).
\<close>

fun aggiorna_squadra ::
  "guasti \<Rightarrow> nat \<Rightarrow> (nat \<rightharpoonup> real) \<Rightarrow> real \<Rightarrow> int \<Rightarrow> nat list \<Rightarrow> connection
     \<Rightarrow> errore option \<times> connection" where
  "aggiorna_squadra f n eloMap deltaElo isVincitore [] c = (None, c)"
| "aggiorna_squadra f n eloMap deltaElo isVincitore (giocatoreId # rest) c =
     (if f n then (Some (StoreError n), c)
      else case eloMap giocatoreId of
        None \<Rightarrow> (Some (StoreError n), c)
      | Some e \<Rightarrow>
          aggiorna_squadra f (Suc n) eloMap deltaElo isVincitore rest
            (execute (UPDATE_giocatori (e + deltaElo) isVincitore (1 - isVincitore) giocatoreId) c))"

text \<open>
  The second half of the \<open>try\<close> block: the two iterations (calls 3 to 6), the \<open>INSERT\<close>
  (call 7) and \<open>commit\<close> (call 8).  It returns what is thrown or returned, and the
  connection at that moment.
\<close>

definition createPartita_scrivi ::
  "guasti \<Rightarrow> connection \<Rightarrow> (nat \<rightharpoonup> real) \<Rightarrow> real \<Rightarrow> real \<Rightarrow> nat \<times> nat \<Rightarrow> nat \<times> nat \<Rightarrow> int
     \<Rightarrow> (errore + esito) \<times> connection" where
  "createPartita_scrivi f c1 eloMap deltaElo1 deltaElo2 sq1 sq2 v =
     (case aggiorna_squadra f 3 eloMap deltaElo1 (if v = 1 then 1 else 0)
             [fst sq1, snd sq1] c1 of
        (Some e, c2) \<Rightarrow> (Inl e, c2)
      | (None, c2) \<Rightarrow>
         (case aggiorna_squadra f 5 eloMap deltaElo2 (if v = 2 then 1 else 0)
                 [fst sq2, snd sq2] c2 of
            (Some e, c3) \<Rightarrow> (Inl e, c3)
          | (None, c3) \<Rightarrow>
             if f 7 \<or> \<not> CHECK_vincitore v then (Inl (StoreError 7), c3)
             else
               let insertId = partite_auto (vista c3);
                   c4 = execute (INSERT_partite sq1 sq2 v) c3
               in
               if f 8 then (Inl (StoreError 8), c4)
               else
                 (Inr \<lparr>id_p = insertId, squadra1 = sq1, squadra2 = sq2,
                       vincitore = v, squadra1_delta = deltaElo1,
                       squadra2_delta = deltaElo2\<rparr>,
                  commit c4)))"

text \<open>
  The body of the \<open>try\<close> block: \<open>beginTransaction\<close> (call 1), the \<open>SELECT\<close> (call 2),
  the four-row check, the team means and the two new team ratings, then the writes.
\<close>

definition createPartita_try ::
  "guasti \<Rightarrow> connection \<Rightarrow> nat \<times> nat \<Rightarrow> nat \<times> nat \<Rightarrow> int \<Rightarrow> (errore + esito) \<times> connection" where
  "createPartita_try f c0 sq1 sq2 v =
     (if f 1 then (Inl (StoreError 1), c0)
      else
        let c1 = beginTransaction c0;
            tuttiGiocatori = [fst sq1, snd sq1, fst sq2, snd sq2]
        in
        if f 2 then (Inl (StoreError 2), c1)
        else
          let giocatori = SELECT_id_elo (vista c1) tuttiGiocatori in
          if length giocatori \<noteq> 4 then (Inl UnknownPlayer, c1)
          else
            let eloMap = crea_eloMap giocatori in
            case (eloMap (fst sq1), eloMap (snd sq1), eloMap (fst sq2), eloMap (snd sq2)) of
              (Some e10, Some e11, Some e20, Some e21) \<Rightarrow>
                let eloSquadra1 = (e10 + e11) / 2;
                    eloSquadra2 = (e20 + e21) / 2;
                    k = 32;
                    risultato1 = (if v = 1 then 1 else 0);
                    risultato2 = (if v = 2 then 1 else 0);
                    nuoviEloSquadra1 = calcolaELO eloSquadra1 eloSquadra2 risultato1 k;
                    nuoviEloSquadra2 = calcolaELO eloSquadra2 eloSquadra1 risultato2 k;
                    deltaElo1 = of_int nuoviEloSquadra1 - eloSquadra1;
                    deltaElo2 = of_int nuoviEloSquadra2 - eloSquadra2
                in createPartita_scrivi f c1 eloMap deltaElo1 deltaElo2 sq1 sq2 v
            | _ \<Rightarrow> (Inl (StoreError 3), c1))"

text \<open>
  The whole operation: \<open>mysql.createConnection\<close> (call 0) stands before the \<open>try\<close>; the
  \<open>catch\<close> block rolls back (call 9) and throws the error again; \<open>finally\<close> ends the
  connection.
\<close>

definition createPartita ::
  "guasti \<Rightarrow> db \<Rightarrow> nat \<times> nat \<Rightarrow> nat \<times> nat \<Rightarrow> int \<Rightarrow> (errore + esito) \<times> db" where
  "createPartita f s sq1 sq2 v =
     (if f 0 then (Inl (StoreError 0), s)
      else
        case createPartita_try f (createConnection s) sq1 sq2 v of
          (Inr r, c) \<Rightarrow> (Inr r, end_connection c)
        | (Inl e, c) \<Rightarrow>
            (if f 9 then (Inl (StoreError 9), end_connection c)
             else (Inl e, end_connection (rollback c))))"

section \<open>The other operations\<close>

text \<open>
  \<open>createGiocatore\<close>, \<open>insertSampleData\<close> and \<open>resetDatabase\<close> use the long-lived
  connection \<open>this.connection\<close> with no transaction: each statement changes the store.
\<close>

definition createGiocatore ::
  "guasti \<Rightarrow> db \<Rightarrow> string \<Rightarrow> ruolo \<Rightarrow> (errore + giocatore) \<times> db" where
  "createGiocatore f s n r =
     (if f 0 then (Inl (StoreError 0), s)
      else
        let existing = filter (\<lambda>g. LOWER (nome g) = LOWER n) (t_giocatori s) in
        if length existing > 0 then (Inl DuplicatePlayer, s)
        else if f 1 then (Inl (StoreError 1), s)
        else
          (Inr \<lparr>id_g = giocatori_auto s, nome = n, ruolo = r, elo = 1500,
                partite = 0, vittorie = 0, sconfitte = 0\<rparr>,
           INSERT_giocatori n r 1500 0 0 0 s))"

definition samplePlayers :: "(string \<times> ruolo) list" where
  "samplePlayers =
     [(''Mario'', portiere), (''Luigi'', attaccante), (''Paolo'', portiere),
      (''Marco'', attaccante), (''Giovanni'', portiere), (''Luca'', attaccante)]"

text \<open>
  The iteration of \<open>insertSampleData\<close>; a failing \<open>INSERT\<close> ends it, the rows before stay.
\<close>

fun inserisci_esempi :: "guasti \<Rightarrow> nat \<Rightarrow> (string \<times> ruolo) list \<Rightarrow> db \<Rightarrow> db" where
  "inserisci_esempi f n [] d = d"
| "inserisci_esempi f n (p # ps) d =
     (if f n then d
      else inserisci_esempi f (Suc n) ps (INSERT_giocatori_default (fst p) (snd p) d))"

text \<open>
  \<open>insertSampleData\<close>: the count (call 0), then one \<open>INSERT\<close> per sample player (calls
  1 to 6) when the table is empty.  Its \<open>catch\<close> block logs the error and returns.
\<close>

definition insertSampleData :: "guasti \<Rightarrow> db \<Rightarrow> db" where
  "insertSampleData f s =
     (if f 0 then s
      else
        let count = length (t_giocatori s) in
        if count = 0 then inserisci_esempi f 1 samplePlayers s else s)"

text \<open>
  \<open>resetDatabase\<close>; \<open>NODE_ENV\<close> is \<open>process.env.NODE_ENV\<close>, \<open>None\<close> when it is not set.
  Calls 0 to 3 are the four statements, calls 4 to 10 those of \<open>insertSampleData\<close>.
\<close>

definition resetDatabase :: "string option \<Rightarrow> guasti \<Rightarrow> db \<Rightarrow> (errore + bool) \<times> db" where
  "resetDatabase NODE_ENV f s =
     (if NODE_ENV = Some ''production'' then (Inl OperationForbidden, s)
      else if f 0 then (Inl (StoreError 0), s)
      else if f 1 then (Inl (StoreError 1), s)
      else
        let s1 = TRUNCATE_partite s in
        if f 2 then (Inl (StoreError 2), s1)
        else
          let s2 = TRUNCATE_giocatori s1 in
          if f 3 then (Inl (StoreError 3), s2)
          else (Inr True, insertSampleData (\<lambda>n. f (n + 4)) s2))"

text \<open>
  The states the store can be in: the fresh tables, changed by any sequence of the
  operations, each with any failures of the driver.
\<close>

inductive raggiungibile :: "db \<Rightarrow> bool" where
  iniziale: "raggiungibile vuoto"
| dopo_insertSampleData: "raggiungibile s \<Longrightarrow> raggiungibile (insertSampleData f s)"
| dopo_createGiocatore: "raggiungibile s \<Longrightarrow> raggiungibile (snd (createGiocatore f s n r))"
| dopo_createPartita: "raggiungibile s \<Longrightarrow> raggiungibile (snd (createPartita f s sq1 sq2 v))"
| dopo_resetDatabase: "raggiungibile s \<Longrightarrow> raggiungibile (snd (resetDatabase env f s))"

text \<open>\<open>id INT AUTO_INCREMENT PRIMARY KEY\<close>: no two rows share an identifier.\<close>

definition chiave_primaria :: "db \<Rightarrow> bool" where
  "chiave_primaria d = distinct (map id_g (t_giocatori d))"

section \<open>Notions used to state the properties\<close>

text \<open>
  What one match does to the row of a participant whose team moves by \<open>delta\<close>:
  the rating moves by \<open>delta\<close>, \<open>partite\<close> grows by one, and \<open>vittorie\<close> or \<open>sconfitte\<close>
  grows by one (\<open>isVincitore\<close> is 1 for the winning team and 0 for the other).
\<close>

definition gioca :: "real \<Rightarrow> int \<Rightarrow> giocatore \<Rightarrow> giocatore" where
  "gioca delta isVincitore g =
     g\<lparr>elo := elo g + delta, partite := partite g + 1,
       vittorie := vittorie g + isVincitore, sconfitte := sconfitte g + (1 - isVincitore)\<rparr>"

text \<open>The rating stored for the player with identifier \<open>i\<close>.\<close>

definition elo_di :: "db \<Rightarrow> nat \<Rightarrow> real option" where
  "elo_di d i = map_option elo (find (\<lambda>g. id_g g = i) (t_giocatori d))"

text \<open>
  The store after a recorded match: the rows of the two members of team 1 have played
  with \<open>delta1\<close>, those of team 2 with \<open>delta2\<close>, every other row is as before, and one
  row is appended to \<open>partite\<close>.
\<close>

definition dopo_partita :: "db \<Rightarrow> nat \<times> nat \<Rightarrow> nat \<times> nat \<Rightarrow> int \<Rightarrow> real \<Rightarrow> real \<Rightarrow> db" where
  "dopo_partita s sq1 sq2 v delta1 delta2 =
     s\<lparr>t_giocatori :=
         map (\<lambda>g. if id_g g = fst sq1 \<or> id_g g = snd sq1
                    then gioca delta1 (if v = 1 then 1 else 0) g
                  else if id_g g = fst sq2 \<or> id_g g = snd sq2
                    then gioca delta2 (if v = 2 then 1 else 0) g
                  else g)
             (t_giocatori s),
       t_partite := t_partite s @
           [\<lparr>id_p = partite_auto s, squadra1 = sq1, squadra2 = sq2, vincitore = v\<rparr>],
       partite_auto := Suc (partite_auto s)\<rparr>"

text \<open>The row function of one \<open>UPDATE\<close> statement.\<close>

definition aggiorna_riga :: "real \<Rightarrow> int \<Rightarrow> nat \<Rightarrow> giocatore \<Rightarrow> giocatore" where
  "aggiorna_riga nuovoElo w i g =
     (if id_g g = i
      then g\<lparr>elo := nuovoElo, partite := partite g + 1,
             vittorie := vittorie g + w, sconfitte := sconfitte g + (1 - w)\<rparr>
      else g)"

text \<open>The invariant of the three counters of a player.\<close>

definition contatori_ok :: "giocatore \<Rightarrow> bool" where
  "contatori_ok g =
     (partite g = vittorie g + sconfitte g \<and> 0 \<le> partite g \<and> 0 \<le> vittorie g \<and> 0 \<le> sconfitte g)"

text \<open>
  What holds in every state the operations can reach: the identifiers are a key, they
  lie below the \<open>AUTO_INCREMENT\<close> counter, and the counters of every row are consistent.
\<close>

definition invariante :: "db \<Rightarrow> bool" where
  "invariante d =
     (chiave_primaria d
      \<and> list_all (\<lambda>g. id_g g < giocatori_auto d) (t_giocatori d)
      \<and> list_all contatori_ok (t_giocatori d))"

text \<open>
  The state of scenario 1 of the specification: four players A, B, C and D, each with
  rating 1500 and no match played.
\<close>

definition scenario1 :: db where
  "scenario1 =
     \<lparr>t_giocatori =
        [\<lparr>id_g = 1, nome = ''A'', ruolo = portiere, elo = 1500, partite = 0, vittorie = 0, sconfitte = 0\<rparr>,
         \<lparr>id_g = 2, nome = ''B'', ruolo = attaccante, elo = 1500, partite = 0, vittorie = 0, sconfitte = 0\<rparr>,
         \<lparr>id_g = 3, nome = ''C'', ruolo = portiere, elo = 1500, partite = 0, vittorie = 0, sconfitte = 0\<rparr>,
         \<lparr>id_g = 4, nome = ''D'', ruolo = attaccante, elo = 1500, partite = 0, vittorie = 0, sconfitte = 0\<rparr>],
      giocatori_auto = 5, t_partite = [], partite_auto = 1\<rparr>"

text \<open>
  The counters of a row after a match between \<open>sq1\<close> and \<open>sq2\<close> won by team \<open>v\<close>: a
  participant has one match more and either one win or one loss more.
\<close>

definition contatori_dopo :: "nat \<times> nat \<Rightarrow> nat \<times> nat \<Rightarrow> int \<Rightarrow> giocatore \<Rightarrow> int \<times> int \<times> int" where
  "contatori_dopo sq1 sq2 v g =
     (if id_g g = fst sq1 \<or> id_g g = snd sq1
        then (partite g + 1, vittorie g + (if v = 1 then 1 else 0),
              sconfitte g + (if v = 1 then 0 else 1))
      else if id_g g = fst sq2 \<or> id_g g = snd sq2
        then (partite g + 1, vittorie g + (if v = 2 then 1 else 0),
              sconfitte g + (if v = 2 then 0 else 1))
      else (partite g, vittorie g, sconfitte g))"

text \<open>The rows \<open>insertSampleData\<close> inserts into an empty table.\<close>

definition giocatori_di_esempio :: "giocatore list" where
  "giocatori_di_esempio =
        [\<lparr>id_g = 1, nome = ''Mario'', ruolo = portiere, elo = 1500, partite = 0, vittorie = 0, sconfitte = 0\<rparr>,
         \<lparr>id_g = 2, nome = ''Luigi'', ruolo = attaccante, elo = 1500, partite = 0, vittorie = 0, sconfitte = 0\<rparr>,
         \<lparr>id_g = 3, nome = ''Paolo'', ruolo = portiere, elo = 1500, partite = 0, vittorie = 0, sconfitte = 0\<rparr>,
         \<lparr>id_g = 4, nome = ''Marco'', ruolo = attaccante, elo = 1500, partite = 0, vittorie = 0, sconfitte = 0\<rparr>,
         \<lparr>id_g = 5, nome = ''Giovanni'', ruolo = portiere, elo = 1500, partite = 0, vittorie = 0, sconfitte = 0\<rparr>,
         \<lparr>id_g = 6, nome = ''Luca'', ruolo = attaccante, elo = 1500, partite = 0, vittorie = 0, sconfitte = 0\<rparr>]"

text \<open>
  Four players whose teams (A, B) and (C, D) both have the odd rating sum 3001.
\<close>

definition scenario_dispari :: db where
  "scenario_dispari =
     \<lparr>t_giocatori =
        [\<lparr>id_g = 1, nome = ''A'', ruolo = portiere, elo = 1500, partite = 0, vittorie = 0, sconfitte = 0\<rparr>,
         \<lparr>id_g = 2, nome = ''B'', ruolo = attaccante, elo = 1501, partite = 0, vittorie = 0, sconfitte = 0\<rparr>,
         \<lparr>id_g = 3, nome = ''C'', ruolo = portiere, elo = 1501, partite = 0, vittorie = 0, sconfitte = 0\<rparr>,
         \<lparr>id_g = 4, nome = ''D'', ruolo = attaccante, elo = 1500, partite = 0, vittorie = 0, sconfitte = 0\<rparr>],
      giocatori_auto = 5, t_partite = [], partite_auto = 1\<rparr>"

text \<open>
  The store after \<open>initialize\<close> on a fresh database and two recorded matches, both
  won by team (1, 2) against team (3, 4).
\<close>

definition dopo_due_partite :: db where
  "dopo_due_partite =
     snd (createPartita nessun_guasto
            (snd (createPartita nessun_guasto (insertSampleData nessun_guasto vuoto)
                    (1, 2) (3, 4) 1))
            (1, 2) (3, 4) 1)"

text \<open>
  No counter decreases from \<open>s\<close> to \<open>s'\<close>: every row of \<open>s\<close> has a row in \<open>s'\<close> with the
  same identifier whose three counters are at least as large.
\<close>

definition non_decrescente :: "db \<Rightarrow> db \<Rightarrow> bool" where
  "non_decrescente s s' =
     list_all (\<lambda>g. list_ex (\<lambda>g'. id_g g' = id_g g \<and> partite g \<le> partite g'
                                \<and> vittorie g \<le> vittorie g' \<and> sconfitte g \<le> sconfitte g')
                      (t_giocatori s'))
       (t_giocatori s)"

section \<open>Properties of the rating function\<close>

lemma atteso_uguali: "atteso r r = 1 / 2"
  by (simp add: atteso_def Math_pow_def)



section \<open>The transaction of \<open>createPartita\<close>\<close>

lemma execute_in_tx:
  "transaction c = Some w \<Longrightarrow> execute u c = c\<lparr>transaction := Some (u w)\<rparr>"
  by (simp add: execute_def)

lemma aggiorna_due:
  assumes "transaction c = Some w" "m a = Some ea" "m b = Some eb"
  shows "aggiorna_squadra f n m dl isV [a, b] c =
     (if f n then (Some (StoreError n), c)
      else if f (Suc n)
        then (Some (StoreError (Suc n)),
              c\<lparr>transaction := Some (UPDATE_giocatori (ea + dl) isV (1 - isV) a w)\<rparr>)
        else (None,
              c\<lparr>transaction := Some (UPDATE_giocatori (eb + dl) isV (1 - isV) b
                                     (UPDATE_giocatori (ea + dl) isV (1 - isV) a w))\<rparr>))"
  using assms by (simp add: execute_in_tx)

lemma createPartita_scrivi_eq:
  assumes "transaction c = Some w"
    and "m (fst sq1) = Some e10" "m (snd sq1) = Some e11"
    and "m (fst sq2) = Some e20" "m (snd sq2) = Some e21"
  shows "createPartita_scrivi f c m d1 d2 sq1 sq2 v =
     (let w1 = UPDATE_giocatori (e10 + d1) (if v = 1 then 1 else 0) (1 - (if v = 1 then 1 else 0)) (fst sq1) w;
          w2 = UPDATE_giocatori (e11 + d1) (if v = 1 then 1 else 0) (1 - (if v = 1 then 1 else 0)) (snd sq1) w1;
          w3 = UPDATE_giocatori (e20 + d2) (if v = 2 then 1 else 0) (1 - (if v = 2 then 1 else 0)) (fst sq2) w2;
          w4 = UPDATE_giocatori (e21 + d2) (if v = 2 then 1 else 0) (1 - (if v = 2 then 1 else 0)) (snd sq2) w3;
          w5 = INSERT_partite sq1 sq2 v w4
      in
      if f 3 then (Inl (StoreError 3), c)
      else if f 4 then (Inl (StoreError 4), c\<lparr>transaction := Some w1\<rparr>)
      else if f 5 then (Inl (StoreError 5), c\<lparr>transaction := Some w2\<rparr>)
      else if f 6 then (Inl (StoreError 6), c\<lparr>transaction := Some w3\<rparr>)
      else if f 7 \<or> \<not> CHECK_vincitore v then (Inl (StoreError 7), c\<lparr>transaction := Some w4\<rparr>)
      else if f 8 then (Inl (StoreError 8), c\<lparr>transaction := Some w5\<rparr>)
      else (Inr \<lparr>id_p = partite_auto w4, squadra1 = sq1, squadra2 = sq2,
                 vincitore = v, squadra1_delta = d1, squadra2_delta = d2\<rparr>,
            c\<lparr>store := w5, transaction := None\<rparr>))"
proof -
  have t2: "\<And>x. transaction (c\<lparr>transaction := Some x\<rparr>) = Some x" by simp
  show ?thesis
    unfolding createPartita_scrivi_def Let_def
    by (simp add: aggiorna_due [OF assms(1) assms(2) assms(3)]
        aggiorna_due [OF t2 assms(4) assms(5)] execute_in_tx [OF t2] vista_def commit_def
        numeral_3_eq_3 [symmetric] eval_nat_numeral [symmetric]
        del: aggiorna_squadra.simps)
qed

lemma aggiorna_squadra_store:
  "transaction c = Some w \<Longrightarrow>
     store (snd (aggiorna_squadra f n eloMap dl isV ids c)) = store c
     \<and> (\<exists>w'. transaction (snd (aggiorna_squadra f n eloMap dl isV ids c)) = Some w')"
proof (induction ids arbitrary: n c w)
  case Nil
  then show ?case by simp
next
  case (Cons i ids)
  show ?case
  proof (cases "f n \<or> eloMap i = None")
    case True
    with Cons.prems show ?thesis by auto
  next
    case False
    then obtain e where e: "eloMap i = Some e" and nf: "\<not> f n" by auto
    let ?c = "execute (UPDATE_giocatori (e + dl) isV (1 - isV) i) c"
    have t: "transaction ?c = Some (UPDATE_giocatori (e + dl) isV (1 - isV) i w)"
      and s: "store ?c = store c"
      using Cons.prems by (simp_all add: execute_def)
    from Cons.IH [OF t] s e nf show ?thesis by simp
  qed
qed

lemma aggiorna_squadra_errore:
  "fst (aggiorna_squadra f n eloMap dl isV ids c) = Some e \<Longrightarrow> \<exists>k. e = StoreError k"
  by (induction ids arbitrary: n c) (auto split: if_splits option.splits)

lemma createPartita_scrivi_Inl:
  assumes tx: "transaction c = Some w"
    and res: "fst (createPartita_scrivi f c m d1 d2 sq1 sq2 v) = Inl e"
  shows "store (snd (createPartita_scrivi f c m d1 d2 sq1 sq2 v)) = store c \<and> (\<exists>k. e = StoreError k)"
proof -
  define r2 where "r2 = aggiorna_squadra f 3 m d1 (if v = 1 then 1 else 0) [fst sq1, snd sq1] c"
  define r3 where "r3 = aggiorna_squadra f 5 m d2 (if v = 2 then 1 else 0) [fst sq2, snd sq2] (snd r2)"
  have l2: "store (snd r2) = store c \<and> (\<exists>w. transaction (snd r2) = Some w)"
    unfolding r2_def by (rule aggiorna_squadra_store [OF tx])
  then obtain w2 where s2: "store (snd r2) = store c" and w2: "transaction (snd r2) = Some w2"
    by blast
  have l3: "store (snd r3) = store (snd r2) \<and> (\<exists>w. transaction (snd r3) = Some w)"
    unfolding r3_def by (rule aggiorna_squadra_store [OF w2])
  then obtain w3 where s3: "store (snd r3) = store c" and w3: "transaction (snd r3) = Some w3"
    using s2 by auto
  have s4: "store (execute (INSERT_partite sq1 sq2 v) (snd r3)) = store c"
    using s3 w3 by (simp add: execute_def)
  have e2: "\<And>x. fst r2 = Some x \<Longrightarrow> \<exists>k. x = StoreError k"
    unfolding r2_def by (rule aggiorna_squadra_errore)
  have e3: "\<And>x. fst r3 = Some x \<Longrightarrow> \<exists>k. x = StoreError k"
    unfolding r3_def by (rule aggiorna_squadra_errore)
  have eq: "createPartita_scrivi f c m d1 d2 sq1 sq2 v =
        (case fst r2 of Some x \<Rightarrow> (Inl x, snd r2)
         | None \<Rightarrow>
           (case fst r3 of Some x \<Rightarrow> (Inl x, snd r3)
            | None \<Rightarrow>
               if f 7 \<or> \<not> CHECK_vincitore v then (Inl (StoreError 7), snd r3)
               else if f 8 then (Inl (StoreError 8), execute (INSERT_partite sq1 sq2 v) (snd r3))
               else (Inr \<lparr>id_p = partite_auto (vista (snd r3)), squadra1 = sq1, squadra2 = sq2,
                          vincitore = v, squadra1_delta = d1, squadra2_delta = d2\<rparr>,
                     commit (execute (INSERT_partite sq1 sq2 v) (snd r3)))))"
    unfolding createPartita_scrivi_def Let_def r2_def [symmetric]
    by (cases r2; cases "fst r2"; cases r3; cases "fst r3")
       (simp_all add: r3_def del: aggiorna_squadra.simps)
  from res s2 s3 s4 e2 e3 show ?thesis
    unfolding eq by (auto split: option.splits if_splits)
qed

lemma createPartita_try_Inl:
  assumes "fst (createPartita_try f (createConnection s) sq1 sq2 v) = Inl e"
  shows "store (snd (createPartita_try f (createConnection s) sq1 sq2 v)) = s"
proof -
  let ?c1 = "beginTransaction (createConnection s)"
  have c1: "transaction ?c1 = Some s" "store ?c1 = s" "store (createConnection s) = s"
    by (simp_all add: beginTransaction_def createConnection_def)
  have w: "\<And>m d1 d2. fst (createPartita_scrivi f ?c1 m d1 d2 sq1 sq2 v) = Inl e \<Longrightarrow>
      store (snd (createPartita_scrivi f ?c1 m d1 d2 sq1 sq2 v)) = s"
    using createPartita_scrivi_Inl [OF c1(1)] c1(2) by simp
  from assms c1 w show ?thesis
    unfolding createPartita_try_def Let_def
    by (auto split: if_splits option.splits)
qed

lemma createPartita_errore:
  assumes "fst (createPartita f s sq1 sq2 v) = Inl e"
  shows "snd (createPartita f s sq1 sq2 v) = s"
proof (cases "f 0")
  case True
  then show ?thesis by (simp add: createPartita_def)
next
  case False
  obtain x c where xc: "createPartita_try f (createConnection s) sq1 sq2 v = (x, c)"
    by (cases "createPartita_try f (createConnection s) sq1 sq2 v")
  show ?thesis
  proof (cases x)
    case (Inl e')
    with xc createPartita_try_Inl [of f s sq1 sq2 v e'] have "store c = s" by simp
    with False xc Inl show ?thesis
      by (simp add: createPartita_def end_connection_def rollback_def)
  next
    case (Inr r)
    with assms False xc show ?thesis by (simp add: createPartita_def)
  qed
qed

section \<open>The four-row check and the primary key\<close>

lemma SELECT_ids:
  "map fst (SELECT_id_elo d ids) = filter (\<lambda>i. i \<in> set ids) (map id_g (t_giocatori d))"
  by (simp add: SELECT_id_elo_def filter_map comp_def)

lemma SELECT_distinct:
  "chiave_primaria d \<Longrightarrow> distinct (map fst (SELECT_id_elo d ids))"
  by (simp add: SELECT_ids chiave_primaria_def)

lemma SELECT_length:
  assumes "chiave_primaria d"
  shows "length (SELECT_id_elo d ids) = card (set ids \<inter> id_g ` set (t_giocatori d))"
proof -
  have "length (SELECT_id_elo d ids) = length (map fst (SELECT_id_elo d ids))" by simp
  also have "\<dots> = card (set (map fst (SELECT_id_elo d ids)))"
    using SELECT_distinct [OF assms] by (simp only: distinct_card)
  also have "set (map fst (SELECT_id_elo d ids)) = set ids \<inter> id_g ` set (t_giocatori d)"
    unfolding SELECT_ids by auto
  finally show ?thesis .
qed

lemma quattro_righe:
  assumes "chiave_primaria d" "length ids = 4"
  shows "length (SELECT_id_elo d ids) = 4
         \<longleftrightarrow> distinct ids \<and> set ids \<subseteq> id_g ` set (t_giocatori d)"
proof
  assume l: "length (SELECT_id_elo d ids) = 4"
  let ?X = "id_g ` set (t_giocatori d)"
  have c: "card (set ids \<inter> ?X) = 4" using l SELECT_length [OF assms(1)] by simp
  have "card (set ids \<inter> ?X) \<le> card (set ids)" by (simp add: card_mono)
  moreover have "card (set ids) \<le> length ids" by (rule card_length)
  ultimately have cs: "card (set ids) = length ids" using c assms(2) by simp
  then have d: "distinct ids" by (rule card_distinct)
  have "set ids \<inter> ?X = set ids"
    by (rule card_subset_eq) (use c cs assms(2) in simp_all)
  with d show "distinct ids \<and> set ids \<subseteq> ?X" by blast
next
  assume a: "distinct ids \<and> set ids \<subseteq> id_g ` set (t_giocatori d)"
  then have "set ids \<inter> id_g ` set (t_giocatori d) = set ids" by blast
  with a assms show "length (SELECT_id_elo d ids) = 4"
    by (simp add: SELECT_length distinct_card)
qed

lemma crea_eloMap_foldl:
  "foldl (\<lambda>m g. m(fst g \<mapsto> snd g)) m0 xs = m0 ++ map_of (rev xs)"
  by (induction xs arbitrary: m0) (auto simp: map_add_def fun_eq_iff split: option.splits)

lemma crea_eloMap_map_of:
  assumes "distinct (map fst xs)"
  shows "crea_eloMap xs = map_of xs"
proof -
  have "distinct (map fst (rev xs))"
    using assms by (simp add: rev_map [symmetric])
  then have "map_of (rev xs) = map_of xs"
    using assms by (simp add: map_of_inject_set)
  then show ?thesis
    by (simp add: crea_eloMap_def crea_eloMap_foldl)
qed

lemma eloMap_definita:
  assumes "chiave_primaria d" "g \<in> set (t_giocatori d)" "id_g g \<in> set ids"
  shows "crea_eloMap (SELECT_id_elo d ids) (id_g g) = Some (elo g)"
proof -
  have "(id_g g, elo g) \<in> set (SELECT_id_elo d ids)"
    using assms(2,3) by (auto simp: SELECT_id_elo_def)
  then have "map_of (SELECT_id_elo d ids) (id_g g) = Some (elo g)"
    using SELECT_distinct [OF assms(1)] by (simp add: map_of_is_SomeI)
  then show ?thesis
    using SELECT_distinct [OF assms(1)] by (simp add: crea_eloMap_map_of)
qed

section \<open>A recorded match\<close>

lemma find_chiave:
  "distinct (map id_g rows) \<Longrightarrow> g \<in> set rows \<Longrightarrow> find (\<lambda>x. id_g x = id_g g) rows = Some g"
  by (induction rows) (auto simp: image_iff)

lemma elo_di_riga:
  "chiave_primaria d \<Longrightarrow> g \<in> set (t_giocatori d) \<Longrightarrow> elo_di d (id_g g) = Some (elo g)"
  by (simp add: elo_di_def chiave_primaria_def find_chiave)

lemma createPartita_try_Inr:
  assumes "createPartita_try f (createConnection s) sq1 sq2 v = (Inr r, c)"
  shows "\<exists>e10 e11 e20 e21.
      \<not> f 1 \<and> \<not> f 2
    \<and> length (SELECT_id_elo s [fst sq1, snd sq1, fst sq2, snd sq2]) = 4
    \<and> crea_eloMap (SELECT_id_elo s [fst sq1, snd sq1, fst sq2, snd sq2]) (fst sq1) = Some e10
    \<and> crea_eloMap (SELECT_id_elo s [fst sq1, snd sq1, fst sq2, snd sq2]) (snd sq1) = Some e11
    \<and> crea_eloMap (SELECT_id_elo s [fst sq1, snd sq1, fst sq2, snd sq2]) (fst sq2) = Some e20
    \<and> crea_eloMap (SELECT_id_elo s [fst sq1, snd sq1, fst sq2, snd sq2]) (snd sq2) = Some e21
    \<and> createPartita_scrivi f (beginTransaction (createConnection s))
          (crea_eloMap (SELECT_id_elo s [fst sq1, snd sq1, fst sq2, snd sq2]))
          (of_int (calcolaELO ((e10 + e11) / 2) ((e20 + e21) / 2) (if v = 1 then 1 else 0) 32)
             - (e10 + e11) / 2)
          (of_int (calcolaELO ((e20 + e21) / 2) ((e10 + e11) / 2) (if v = 2 then 1 else 0) 32)
             - (e20 + e21) / 2)
          sq1 sq2 v = (Inr r, c)"
proof -
  have v: "vista (beginTransaction (createConnection s)) = s"
    by (simp add: vista_def beginTransaction_def createConnection_def)
  from assms show ?thesis
    unfolding createPartita_try_def Let_def v
    by (simp split: if_splits option.splits)
qed

lemma UPDATE_giocatori_riga:
  "UPDATE_giocatori e w (1 - w) i d = d\<lparr>t_giocatori := map (aggiorna_riga e w i) (t_giocatori d)\<rparr>"
  by (simp add: UPDATE_giocatori_def aggiorna_riga_def)

lemma aggiorna_riga_id: "id_g (aggiorna_riga e w i g) = id_g g"
  by (simp add: aggiorna_riga_def)

lemma aggiorna_riga_altro: "id_g g \<noteq> i \<Longrightarrow> aggiorna_riga e w i g = g"
  by (simp add: aggiorna_riga_def)

lemma aggiorna_riga_gioca: "id_g g = i \<Longrightarrow> aggiorna_riga (elo g + dl) w i g = gioca dl w g"
  by (simp add: aggiorna_riga_def gioca_def)

lemma quattro_righe_aggiornate:
  assumes dist: "distinct [a, b, c, d]"
    and ea: "id_g g = a \<Longrightarrow> elo g = e10"
    and eb: "id_g g = b \<Longrightarrow> elo g = e11"
    and ec: "id_g g = c \<Longrightarrow> elo g = e20"
    and ed: "id_g g = d \<Longrightarrow> elo g = e21"
  shows "aggiorna_riga (e21 + d2) w2 d (aggiorna_riga (e20 + d2) w2 c
           (aggiorna_riga (e11 + d1) w1 b (aggiorna_riga (e10 + d1) w1 a g)))
       = (if id_g g = a \<or> id_g g = b then gioca d1 w1 g
          else if id_g g = c \<or> id_g g = d then gioca d2 w2 g
          else g)"
proof -
  consider (a) "id_g g = a" | (b) "id_g g = b" | (c) "id_g g = c" | (d) "id_g g = d"
    | (n) "id_g g \<noteq> a" "id_g g \<noteq> b" "id_g g \<noteq> c" "id_g g \<noteq> d"
    by blast
  then show ?thesis
  proof cases
    case a
    then have "aggiorna_riga (e10 + d1) w1 a g = gioca d1 w1 g"
      using ea aggiorna_riga_gioca [of g a d1 w1] by simp
    moreover have "id_g (gioca d1 w1 g) = a" using a by (simp add: gioca_def)
    ultimately show ?thesis using a dist by (simp add: aggiorna_riga_altro)
  next
    case b
    then have "aggiorna_riga (e10 + d1) w1 a g = g"
      using dist by (simp add: aggiorna_riga_altro)
    moreover have "aggiorna_riga (e11 + d1) w1 b g = gioca d1 w1 g"
      using b eb aggiorna_riga_gioca [of g b d1 w1] by simp
    moreover have "id_g (gioca d1 w1 g) = b" using b by (simp add: gioca_def)
    ultimately show ?thesis using b dist by (simp add: aggiorna_riga_altro)
  next
    case c
    then have "aggiorna_riga (e10 + d1) w1 a g = g" "aggiorna_riga (e11 + d1) w1 b g = g"
      using dist by (simp_all add: aggiorna_riga_altro)
    moreover have "aggiorna_riga (e20 + d2) w2 c g = gioca d2 w2 g"
      using c ec aggiorna_riga_gioca [of g c d2 w2] by simp
    moreover have "id_g (gioca d2 w2 g) = c" using c by (simp add: gioca_def)
    ultimately show ?thesis using c dist by (simp add: aggiorna_riga_altro)
  next
    case d
    then have "aggiorna_riga (e10 + d1) w1 a g = g" "aggiorna_riga (e11 + d1) w1 b g = g"
      "aggiorna_riga (e20 + d2) w2 c g = g"
      using dist by (simp_all add: aggiorna_riga_altro)
    moreover have "aggiorna_riga (e21 + d2) w2 d g = gioca d2 w2 g"
      using d ed aggiorna_riga_gioca [of g d d2 w2] by simp
    ultimately show ?thesis using d dist by simp
  next
    case n
    then show ?thesis by (simp add: aggiorna_riga_altro)
  qed
qed

lemma quattro_aggiornamenti:
  assumes dist: "distinct [a, b, c, d]"
    and ea: "\<And>g. g \<in> set (t_giocatori s) \<Longrightarrow> id_g g = a \<Longrightarrow> elo g = e10"
    and eb: "\<And>g. g \<in> set (t_giocatori s) \<Longrightarrow> id_g g = b \<Longrightarrow> elo g = e11"
    and ec: "\<And>g. g \<in> set (t_giocatori s) \<Longrightarrow> id_g g = c \<Longrightarrow> elo g = e20"
    and ed: "\<And>g. g \<in> set (t_giocatori s) \<Longrightarrow> id_g g = d \<Longrightarrow> elo g = e21"
  shows "INSERT_partite (a, b) (c, d) v
           (UPDATE_giocatori (e21 + d2) w2 (1 - w2) d
           (UPDATE_giocatori (e20 + d2) w2 (1 - w2) c
           (UPDATE_giocatori (e11 + d1) w1 (1 - w1) b
           (UPDATE_giocatori (e10 + d1) w1 (1 - w1) a s))))
       = s\<lparr>t_giocatori :=
         map (\<lambda>g. if id_g g = a \<or> id_g g = b then gioca d1 w1 g
                  else if id_g g = c \<or> id_g g = d then gioca d2 w2 g
                  else g)
             (t_giocatori s),
       t_partite := t_partite s @
           [\<lparr>id_p = partite_auto s, squadra1 = (a, b), squadra2 = (c, d), vincitore = v\<rparr>],
       partite_auto := Suc (partite_auto s)\<rparr>"
proof -
  have "map (\<lambda>g. aggiorna_riga (e21 + d2) w2 d (aggiorna_riga (e20 + d2) w2 c
           (aggiorna_riga (e11 + d1) w1 b (aggiorna_riga (e10 + d1) w1 a g)))) (t_giocatori s)
     = map (\<lambda>g. if id_g g = a \<or> id_g g = b then gioca d1 w1 g
                  else if id_g g = c \<or> id_g g = d then gioca d2 w2 g
                  else g) (t_giocatori s)"
    by (rule map_cong [OF refl], rule quattro_righe_aggiornate [OF dist])
       (use ea eb ec ed in blast)+
  then show ?thesis
    by (simp add: INSERT_partite_def UPDATE_giocatori_riga comp_def)
qed

lemma eloMap_elo_di:
  assumes pk: "chiave_primaria s" and i: "i \<in> set ids"
    and ex: "i \<in> id_g ` set (t_giocatori s)"
    and m: "crea_eloMap (SELECT_id_elo s ids) i = Some e"
  shows "elo_di s i = Some e \<and> (\<forall>g\<in>set (t_giocatori s). id_g g = i \<longrightarrow> elo g = e)"
proof -
  from ex obtain g where g: "g \<in> set (t_giocatori s)" "id_g g = i" by auto
  have "crea_eloMap (SELECT_id_elo s ids) (id_g g) = Some (elo g)"
    using eloMap_definita [OF pk g(1)] i g(2) by simp
  with m g have e: "elo g = e" by simp
  have u: "\<forall>g'\<in>set (t_giocatori s). id_g g' = i \<longrightarrow> elo g' = e"
  proof (intro ballI impI)
    fix g' assume g': "g' \<in> set (t_giocatori s)" "id_g g' = i"
    have "crea_eloMap (SELECT_id_elo s ids) (id_g g') = Some (elo g')"
      using eloMap_definita [OF pk g'(1)] i g'(2) by simp
    with m g' show "elo g' = e" by simp
  qed
  from elo_di_riga [OF pk g(1)] g(2) e u show ?thesis by simp
qed

lemma createPartita_successo:
  assumes pk: "chiave_primaria s" and res: "createPartita f s sq1 sq2 v = (Inr r, s')"
  shows "\<exists>e10 e11 e20 e21.
      distinct [fst sq1, snd sq1, fst sq2, snd sq2]
    \<and> elo_di s (fst sq1) = Some e10 \<and> elo_di s (snd sq1) = Some e11
    \<and> elo_di s (fst sq2) = Some e20 \<and> elo_di s (snd sq2) = Some e21
    \<and> CHECK_vincitore v
    \<and> r = \<lparr>id_p = partite_auto s, squadra1 = sq1, squadra2 = sq2, vincitore = v,
            squadra1_delta =
              of_int (calcolaELO ((e10 + e11) / 2) ((e20 + e21) / 2) (if v = 1 then 1 else 0) 32)
                - (e10 + e11) / 2,
            squadra2_delta =
              of_int (calcolaELO ((e20 + e21) / 2) ((e10 + e11) / 2) (if v = 2 then 1 else 0) 32)
                - (e20 + e21) / 2\<rparr>
    \<and> s' = dopo_partita s sq1 sq2 v (squadra1_delta r) (squadra2_delta r)"
proof -
  let ?ids = "[fst sq1, snd sq1, fst sq2, snd sq2]"
  let ?m = "crea_eloMap (SELECT_id_elo s ?ids)"
  let ?c1 = "beginTransaction (createConnection s)"
  have f0: "\<not> f 0" using res by (auto simp: createPartita_def)
  obtain x c where xc: "createPartita_try f (createConnection s) sq1 sq2 v = (x, c)"
    by (cases "createPartita_try f (createConnection s) sq1 sq2 v")
  with res f0 have x: "x = Inr r" and s': "s' = store c"
    by (auto simp: createPartita_def end_connection_def split: sum.splits if_splits)
  from createPartita_try_Inr [OF xc [unfolded x]]
  obtain e10 e11 e20 e21 where
    len: "length (SELECT_id_elo s ?ids) = 4"
    and m: "?m (fst sq1) = Some e10" "?m (snd sq1) = Some e11"
           "?m (fst sq2) = Some e20" "?m (snd sq2) = Some e21"
    and w: "createPartita_scrivi f ?c1 ?m
          (of_int (calcolaELO ((e10 + e11) / 2) ((e20 + e21) / 2) (if v = 1 then 1 else 0) 32)
             - (e10 + e11) / 2)
          (of_int (calcolaELO ((e20 + e21) / 2) ((e10 + e11) / 2) (if v = 2 then 1 else 0) 32)
             - (e20 + e21) / 2)
          sq1 sq2 v = (Inr r, c)"
    by blast
  define d1 where "d1 = of_int (calcolaELO ((e10 + e11) / 2) ((e20 + e21) / 2) (if v = 1 then 1 else 0) 32)
             - (e10 + e11) / 2"
  define d2 where "d2 = of_int (calcolaELO ((e20 + e21) / 2) ((e10 + e11) / 2) (if v = 2 then 1 else 0) 32)
             - (e20 + e21) / 2"
  define w1 :: int where "w1 = (if v = 1 then 1 else 0)"
  define w2 :: int where "w2 = (if v = 2 then 1 else 0)"
  have tx: "transaction ?c1 = Some s"
    by (simp add: beginTransaction_def createConnection_def)
  from quattro_righe [OF pk, of ?ids] len
  have dist: "distinct ?ids" and sub: "set ?ids \<subseteq> id_g ` set (t_giocatori s)"
    by simp_all
  have a: "elo_di s (fst sq1) = Some e10 \<and> (\<forall>g\<in>set (t_giocatori s). id_g g = fst sq1 \<longrightarrow> elo g = e10)"
    by (rule eloMap_elo_di [OF pk _ _ m(1)]) (use sub in simp_all)
  have b: "elo_di s (snd sq1) = Some e11 \<and> (\<forall>g\<in>set (t_giocatori s). id_g g = snd sq1 \<longrightarrow> elo g = e11)"
    by (rule eloMap_elo_di [OF pk _ _ m(2)]) (use sub in simp_all)
  have c: "elo_di s (fst sq2) = Some e20 \<and> (\<forall>g\<in>set (t_giocatori s). id_g g = fst sq2 \<longrightarrow> elo g = e20)"
    by (rule eloMap_elo_di [OF pk _ _ m(3)]) (use sub in simp_all)
  have d: "elo_di s (snd sq2) = Some e21 \<and> (\<forall>g\<in>set (t_giocatori s). id_g g = snd sq2 \<longrightarrow> elo g = e21)"
    by (rule eloMap_elo_di [OF pk _ _ m(4)]) (use sub in simp_all)
  have ev: "createPartita_scrivi f ?c1 ?m d1 d2 sq1 sq2 v = (Inr r, c)"
    using w by (simp only: d1_def d2_def)
  have chk: "CHECK_vincitore v"
    and r: "r = \<lparr>id_p = partite_auto s, squadra1 = sq1, squadra2 = sq2, vincitore = v,
                 squadra1_delta = d1, squadra2_delta = d2\<rparr>"
    and st: "store c = INSERT_partite sq1 sq2 v
           (UPDATE_giocatori (e21 + d2) w2 (1 - w2) (snd sq2)
           (UPDATE_giocatori (e20 + d2) w2 (1 - w2) (fst sq2)
           (UPDATE_giocatori (e11 + d1) w1 (1 - w1) (snd sq1)
           (UPDATE_giocatori (e10 + d1) w1 (1 - w1) (fst sq1) s))))"
    using ev unfolding createPartita_scrivi_eq [OF tx m] Let_def w1_def w2_def
    by (auto simp: UPDATE_giocatori_def split: if_splits)
  have "store c = INSERT_partite (fst sq1, snd sq1) (fst sq2, snd sq2) v
           (UPDATE_giocatori (e21 + d2) w2 (1 - w2) (snd sq2)
           (UPDATE_giocatori (e20 + d2) w2 (1 - w2) (fst sq2)
           (UPDATE_giocatori (e11 + d1) w1 (1 - w1) (snd sq1)
           (UPDATE_giocatori (e10 + d1) w1 (1 - w1) (fst sq1) s))))"
    using st by simp
  also have "\<dots> = dopo_partita s sq1 sq2 v d1 d2"
    unfolding dopo_partita_def w1_def [symmetric] w2_def [symmetric]
    by (subst quattro_aggiornamenti [OF dist]) (use a b c d in simp_all)
  finally have "s' = dopo_partita s sq1 sq2 v (squadra1_delta r) (squadra2_delta r)"
    using s' r by simp
  with dist a b c d chk r show ?thesis
    unfolding d1_def d2_def by blast
qed

lemma createPartita_try_errori:
  assumes "fst (createPartita_try f (createConnection s) sq1 sq2 v) = Inl e"
  shows "(e = UnknownPlayer \<and> length (SELECT_id_elo s [fst sq1, snd sq1, fst sq2, snd sq2]) \<noteq> 4)
         \<or> (\<exists>k. e = StoreError k)"
proof -
  let ?c1 = "beginTransaction (createConnection s)"
  have c1: "transaction ?c1 = Some s" "vista ?c1 = s"
    by (simp_all add: beginTransaction_def createConnection_def vista_def)
  have w: "\<And>m d1 d2. fst (createPartita_scrivi f ?c1 m d1 d2 sq1 sq2 v) = Inl e \<Longrightarrow>
      \<exists>k. e = StoreError k"
    using createPartita_scrivi_Inl [OF c1(1)] by blast
  from assms w show ?thesis
    unfolding createPartita_try_def Let_def c1(2)
    by (auto split: if_splits option.splits)
qed

lemma createPartita_sconosciuto:
  assumes "\<not> f 0" "\<not> f 1" "\<not> f 2" "\<not> f 9"
    and "length (SELECT_id_elo s [fst sq1, snd sq1, fst sq2, snd sq2]) \<noteq> 4"
  shows "createPartita f s sq1 sq2 v = (Inl UnknownPlayer, s)"
proof -
  have "vista (beginTransaction (createConnection s)) = s"
    by (simp add: beginTransaction_def createConnection_def vista_def)
  with assms show ?thesis
    by (simp add: createPartita_def createPartita_try_def Let_def end_connection_def
        rollback_def beginTransaction_def createConnection_def)
qed

lemma createPartita_non_sconosciuto:
  assumes "length (SELECT_id_elo s [fst sq1, snd sq1, fst sq2, snd sq2]) = 4"
  shows "fst (createPartita f s sq1 sq2 v) \<noteq> Inl UnknownPlayer"
proof -
  obtain x c where xc: "createPartita_try f (createConnection s) sq1 sq2 v = (x, c)"
    by (cases "createPartita_try f (createConnection s) sq1 sq2 v")
  have "x \<noteq> Inl UnknownPlayer"
    using createPartita_try_errori [of f s sq1 sq2 v UnknownPlayer] xc assms by auto
  with xc show ?thesis
    by (auto simp: createPartita_def split: sum.splits)
qed

lemma createPartita_riesce:
  assumes pk: "chiave_primaria s"
    and dist: "distinct [fst sq1, snd sq1, fst sq2, snd sq2]"
    and sub: "set [fst sq1, snd sq1, fst sq2, snd sq2] \<subseteq> id_g ` set (t_giocatori s)"
    and chk: "CHECK_vincitore v"
    and nf: "\<forall>n\<le>8. \<not> f n"
  shows "\<exists>r s'. createPartita f s sq1 sq2 v = (Inr r, s')"
proof -
  let ?ids = "[fst sq1, snd sq1, fst sq2, snd sq2]"
  let ?m = "crea_eloMap (SELECT_id_elo s ?ids)"
  let ?c1 = "beginTransaction (createConnection s)"
  have c1: "transaction ?c1 = Some s" "vista ?c1 = s"
    by (simp_all add: beginTransaction_def createConnection_def vista_def)
  have len: "length (SELECT_id_elo s ?ids) = 4"
    using quattro_righe [OF pk, of ?ids] dist sub by simp
  have ex: "\<And>i. i \<in> set ?ids \<Longrightarrow> \<exists>e. ?m i = Some e"
  proof -
    fix i assume i: "i \<in> set ?ids"
    with sub obtain g where g: "g \<in> set (t_giocatori s)" "id_g g = i" by auto
    from eloMap_definita [OF pk g(1), of ?ids] i g(2) show "\<exists>e. ?m i = Some e" by auto
  qed
  obtain e10 e11 e20 e21 where m: "?m (fst sq1) = Some e10" "?m (snd sq1) = Some e11"
           "?m (fst sq2) = Some e20" "?m (snd sq2) = Some e21"
    using ex [of "fst sq1"] ex [of "snd sq1"] ex [of "fst sq2"] ex [of "snd sq2"] by auto
  have f: "\<not> f 0" "\<not> f 1" "\<not> f 2" "\<not> f 3" "\<not> f 4" "\<not> f 5" "\<not> f 6" "\<not> f 7" "\<not> f 8"
    using nf by simp_all
  show ?thesis
    unfolding createPartita_def createPartita_try_def Let_def c1(2)
    using f len m chk
    by (simp add: createPartita_scrivi_eq [OF c1(1) m] Let_def)
qed

lemma calcolaELO_1500_v: "calcolaELO 1500 1500 1 32 = 1516"
  by (simp add: calcolaELO_def atteso_uguali Math_round_def)

lemma calcolaELO_1500_s: "calcolaELO 1500 1500 0 32 = 1484"
  by (simp add: calcolaELO_def atteso_uguali Math_round_def)

section \<open>The invariant of the reachable states\<close>

lemma invariante_vuoto: "invariante vuoto"
  by (simp add: invariante_def vuoto_def chiave_primaria_def)

lemma invariante_INSERT:
  assumes "invariante d" "0 \<le> v" "0 \<le> s" "p = v + s"
  shows "invariante (INSERT_giocatori n r e p v s d)"
proof -
  from assms(1) have "giocatori_auto d \<notin> id_g ` set (t_giocatori d)"
    by (auto simp: invariante_def list_all_iff)
  moreover from assms(1) have
    "list_all (\<lambda>g. id_g g < Suc (giocatori_auto d)) (t_giocatori d)"
    by (auto simp: invariante_def list_all_iff less_Suc_eq)
  ultimately show ?thesis
    using assms
    by (simp add: invariante_def INSERT_giocatori_def chiave_primaria_def contatori_ok_def)
qed

lemma invariante_inserisci_esempi:
  "invariante d \<Longrightarrow> invariante (inserisci_esempi f n ps d)"
proof (induction ps arbitrary: n d)
  case Nil
  then show ?case by simp
next
  case (Cons p ps)
  then show ?case
    by (simp add: INSERT_giocatori_default_def invariante_INSERT)
qed

lemma invariante_insertSampleData:
  "invariante s \<Longrightarrow> invariante (insertSampleData f s)"
  by (simp add: insertSampleData_def Let_def invariante_inserisci_esempi)

lemma invariante_createGiocatore:
  "invariante s \<Longrightarrow> invariante (snd (createGiocatore f s n r))"
  by (simp add: createGiocatore_def Let_def invariante_INSERT)

lemma invariante_TRUNCATE:
  "invariante s \<Longrightarrow> invariante (TRUNCATE_partite s)"
  "invariante s \<Longrightarrow> invariante (TRUNCATE_giocatori s)"
  by (simp_all add: invariante_def TRUNCATE_partite_def TRUNCATE_giocatori_def chiave_primaria_def)

lemma invariante_resetDatabase:
  "invariante s \<Longrightarrow> invariante (snd (resetDatabase env f s))"
  by (simp add: resetDatabase_def Let_def invariante_TRUNCATE invariante_insertSampleData)

lemma contatori_gioca:
  "contatori_ok g \<Longrightarrow> w = 0 \<or> w = 1 \<Longrightarrow> contatori_ok (gioca dl w g)"
  by (auto simp: contatori_ok_def gioca_def)

lemma invariante_dopo_partita:
  assumes "invariante s"
  shows "invariante (dopo_partita s sq1 sq2 v d1 d2)"
proof -
  define u where "u = (\<lambda>g. if id_g g = fst sq1 \<or> id_g g = snd sq1
                    then gioca d1 (if v = 1 then 1 else 0) g
                  else if id_g g = fst sq2 \<or> id_g g = snd sq2
                    then gioca d2 (if v = 2 then 1 else 0) g
                  else g)"
  have id: "\<And>g. id_g (u g) = id_g g" by (simp add: u_def gioca_def)
  have c: "\<And>g. contatori_ok g \<Longrightarrow> contatori_ok (u g)"
    by (simp add: u_def contatori_gioca)
  have rows: "t_giocatori (dopo_partita s sq1 sq2 v d1 d2) = map u (t_giocatori s)"
    and cnt: "giocatori_auto (dopo_partita s sq1 sq2 v d1 d2) = giocatori_auto s"
    by (simp_all add: dopo_partita_def u_def)
  have ids: "map id_g (map u (t_giocatori s)) = map id_g (t_giocatori s)"
    using id by (simp add: comp_def)
  have 1: "chiave_primaria (dopo_partita s sq1 sq2 v d1 d2)"
    using assms unfolding chiave_primaria_def rows ids by (simp add: invariante_def chiave_primaria_def)
  have 2: "list_all (\<lambda>g. id_g g < giocatori_auto s) (map u (t_giocatori s))"
    using assms id by (simp add: invariante_def list_all_iff)
  have 3: "list_all contatori_ok (map u (t_giocatori s))"
    using assms c by (simp add: invariante_def list_all_iff)
  from 1 2 3 show ?thesis
    unfolding invariante_def rows cnt by simp
qed

lemma invariante_createPartita:
  assumes "invariante s"
  shows "invariante (snd (createPartita f s sq1 sq2 v))"
proof (cases "fst (createPartita f s sq1 sq2 v)")
  case (Inl e)
  then show ?thesis using assms createPartita_errore by simp
next
  case (Inr r)
  then have "createPartita f s sq1 sq2 v = (Inr r, snd (createPartita f s sq1 sq2 v))"
    by (simp add: prod_eq_iff)
  from createPartita_successo [OF _ this] assms
  show ?thesis by (auto simp: invariante_def [of s] invariante_dopo_partita [OF assms])
qed

lemma raggiungibile_invariante: "raggiungibile s \<Longrightarrow> invariante s"
proof (induction rule: raggiungibile.induct)
  case iniziale
  show ?case by (rule invariante_vuoto)
next
  case (dopo_insertSampleData s f)
  then show ?case by (simp add: invariante_insertSampleData)
next
  case (dopo_createGiocatore s f n r)
  then show ?case by (simp add: invariante_createGiocatore)
next
  case (dopo_createPartita s f sq1 sq2 v)
  then show ?case by (simp add: invariante_createPartita)
next
  case (dopo_resetDatabase s env f)
  then show ?case by (simp add: invariante_resetDatabase)
qed

text \<open>In particular the identifiers are a key in every reachable state.\<close>

lemma raggiungibile_chiave_primaria: "raggiungibile s \<Longrightarrow> chiave_primaria s"
  using raggiungibile_invariante by (simp add: invariante_def)

section \<open>Failures, unknown players and sample data\<close>

lemma createPartita_Inr_nessun_guasto:
  assumes "fst (createPartita f s sq1 sq2 v) = Inr r"
  shows "\<forall>n\<le>8. \<not> f n"
proof -
  let ?c1 = "beginTransaction (createConnection s)"
  have tx: "transaction ?c1 = Some s"
    by (simp add: beginTransaction_def createConnection_def)
  have f0: "\<not> f 0" using assms by (auto simp: createPartita_def)
  obtain x c where xc: "createPartita_try f (createConnection s) sq1 sq2 v = (x, c)"
    by (cases "createPartita_try f (createConnection s) sq1 sq2 v")
  with assms f0 have x: "x = Inr r"
    by (auto simp: createPartita_def split: sum.splits if_splits)
  from createPartita_try_Inr [OF xc [unfolded x]]
  obtain e10 e11 e20 e21 d1 d2 where f12: "\<not> f 1" "\<not> f 2"
    and m: "crea_eloMap (SELECT_id_elo s [fst sq1, snd sq1, fst sq2, snd sq2]) (fst sq1) = Some e10"
      "crea_eloMap (SELECT_id_elo s [fst sq1, snd sq1, fst sq2, snd sq2]) (snd sq1) = Some e11"
      "crea_eloMap (SELECT_id_elo s [fst sq1, snd sq1, fst sq2, snd sq2]) (fst sq2) = Some e20"
      "crea_eloMap (SELECT_id_elo s [fst sq1, snd sq1, fst sq2, snd sq2]) (snd sq2) = Some e21"
    and w: "createPartita_scrivi f ?c1
          (crea_eloMap (SELECT_id_elo s [fst sq1, snd sq1, fst sq2, snd sq2])) d1 d2
          sq1 sq2 v = (Inr r, c)"
    by blast
  have f38: "\<not> f 3 \<and> \<not> f 4 \<and> \<not> f 5 \<and> \<not> f 6 \<and> \<not> f 7 \<and> \<not> f 8"
    using w unfolding createPartita_scrivi_eq [OF tx m] Let_def
    by (auto split: if_splits)
  show ?thesis
  proof (intro allI impI)
    fix n :: nat assume "n \<le> 8"
    then have "n \<in> {0, 1, 2, 3, 4, 5, 6, 7, 8}"
      by auto
    with f0 f12 f38 show "\<not> f n" by auto
  qed
qed

lemma createPartita_Inr_quattro:
  assumes "fst (createPartita f s sq1 sq2 v) = Inr r"
  shows "length (SELECT_id_elo s [fst sq1, snd sq1, fst sq2, snd sq2]) = 4"
proof -
  have f0: "\<not> f 0" using assms by (auto simp: createPartita_def)
  obtain x c where xc: "createPartita_try f (createConnection s) sq1 sq2 v = (x, c)"
    by (cases "createPartita_try f (createConnection s) sq1 sq2 v")
  with assms f0 have x: "x = Inr r"
    by (auto simp: createPartita_def split: sum.splits if_splits)
  from createPartita_try_Inr [OF xc [unfolded x]] show ?thesis by blast
qed

lemma chiave_scenario1: "chiave_primaria scenario1"
  by (simp add: chiave_primaria_def scenario1_def)

lemma createPartita_meno_di_quattro:
  assumes "length (SELECT_id_elo s [fst sq1, snd sq1, fst sq2, snd sq2]) \<noteq> 4"
  shows "\<exists>e. createPartita f s sq1 sq2 v = (Inl e, s)"
proof (cases "fst (createPartita f s sq1 sq2 v)")
  case (Inl e)
  with createPartita_errore [OF Inl] show ?thesis by (auto simp: prod_eq_iff)
next
  case (Inr r)
  from createPartita_Inr_quattro [OF this] assms show ?thesis by simp
qed

lemma contatori_dopo_partita:
  "map (\<lambda>g. (id_g g, partite g, vittorie g, sconfitte g))
       (t_giocatori (dopo_partita s sq1 sq2 v d1 d2))
   = map (\<lambda>g. (id_g g, contatori_dopo sq1 sq2 v g)) (t_giocatori s)"
  by (simp add: dopo_partita_def contatori_dopo_def gioca_def comp_def)

lemma createGiocatore_Inr:
  assumes "createGiocatore f s n r = (Inr g, s')"
  shows "t_giocatori s' = t_giocatori s @ [g]
       \<and> elo g = 1500 \<and> partite g = 0 \<and> vittorie g = 0 \<and> sconfitte g = 0"
  using assms
  by (auto simp: createGiocatore_def Let_def INSERT_giocatori_def split: if_splits)

lemma insertSampleData_vuoto:
  "insertSampleData nessun_guasto vuoto =
     \<lparr>t_giocatori = giocatori_di_esempio, giocatori_auto = 7, t_partite = [], partite_auto = 1\<rparr>"
  by (simp add: insertSampleData_def nessun_guasto_def vuoto_def samplePlayers_def
      INSERT_giocatori_default_def INSERT_giocatori_def giocatori_di_esempio_def)

lemma createPartita_dopo_esempi:
  "snd (createPartita nessun_guasto (insertSampleData nessun_guasto vuoto) (1, 2) (3, 4) 1) =
     \<lparr>t_giocatori =
        [\<lparr>id_g = 1, nome = ''Mario'', ruolo = portiere, elo = 1516, partite = 1, vittorie = 1, sconfitte = 0\<rparr>,
         \<lparr>id_g = 2, nome = ''Luigi'', ruolo = attaccante, elo = 1516, partite = 1, vittorie = 1, sconfitte = 0\<rparr>,
         \<lparr>id_g = 3, nome = ''Paolo'', ruolo = portiere, elo = 1484, partite = 1, vittorie = 0, sconfitte = 1\<rparr>,
         \<lparr>id_g = 4, nome = ''Marco'', ruolo = attaccante, elo = 1484, partite = 1, vittorie = 0, sconfitte = 1\<rparr>,
         \<lparr>id_g = 5, nome = ''Giovanni'', ruolo = portiere, elo = 1500, partite = 0, vittorie = 0, sconfitte = 0\<rparr>,
         \<lparr>id_g = 6, nome = ''Luca'', ruolo = attaccante, elo = 1500, partite = 0, vittorie = 0, sconfitte = 0\<rparr>],
      giocatori_auto = 7,
      t_partite = [\<lparr>id_p = 1, squadra1 = (1, 2), squadra2 = (3, 4), vincitore = 1\<rparr>],
      partite_auto = 2\<rparr>"
  unfolding insertSampleData_vuoto giocatori_di_esempio_def
  by (simp add: createPartita_def createPartita_try_def createPartita_scrivi_def Let_def
      nessun_guasto_def createConnection_def beginTransaction_def vista_def
      SELECT_id_elo_def crea_eloMap_def execute_def commit_def end_connection_def
      UPDATE_giocatori_def INSERT_partite_def CHECK_vincitore_def
      calcolaELO_1500_v calcolaELO_1500_s)

lemma insertSampleData_dopo_TRUNCATE:
  assumes "\<forall>n\<le>6. \<not> f n"
  shows "insertSampleData f (TRUNCATE_giocatori d) =
     d\<lparr>t_giocatori := giocatori_di_esempio, giocatori_auto := 7\<rparr>"
proof -
  have f: "\<not> f 0" "\<not> f 1" "\<not> f 2" "\<not> f 3" "\<not> f 4" "\<not> f 5" "\<not> f 6"
    using assms by simp_all
  have n: "Suc 0 = 1" "Suc 1 = 2" "Suc 2 = 3" "Suc 3 = 4" "Suc 4 = 5" "Suc 5 = 6" by simp_all
  show ?thesis
    unfolding insertSampleData_def Let_def samplePlayers_def TRUNCATE_giocatori_def
      giocatori_di_esempio_def
    using f
    by (simp add: INSERT_giocatori_default_def INSERT_giocatori_def n
        del: One_nat_def)
qed

lemma calcolaELO_mezzo_v: "calcolaELO (3001 / 2) (3001 / 2) 1 32 = 1517"
  by (simp add: calcolaELO_def atteso_uguali Math_round_def)

lemma calcolaELO_mezzo_s: "calcolaELO (3001 / 2) (3001 / 2) 0 32 = 1485"
  by (simp add: calcolaELO_def atteso_uguali Math_round_def)

section \<open>A reachable state with odd rating sums\<close>

text \<open>
  The second match of \<open>dopo_due_partite\<close> is played at 1516 against 1484.  The expected
  score of the stronger team is \<open>1 / (1 + x)\<close> with \<open>x = 10 powr (- 2 / 25)\<close>, and
  \<open>x ^ 25 = 1 / 100\<close> bounds \<open>x\<close> between 29/35 and 31/33: the ratings move by 15.
\<close>

lemma dieci_powr_bounds:
  "29 / 35 < (10::real) powr (- (2 / 25)) \<and> (10::real) powr (- (2 / 25)) < 31 / 33"
proof -
  define x :: real where "x = 10 powr (- (2 / 25))"
  have x0: "0 < x" by (simp add: x_def)
  have "x ^ 25 = 10 powr (of_nat 25 * - (2 / 25))"
    unfolding x_def by (rule powr_power) simp
  also have "\<dots> = 10 powr (- 2)" by simp
  also have "\<dots> = 1 / 100" by (simp add: powr_minus_divide)
  finally have p: "x ^ 25 = 1 / 100" .
  have "(29 / 35 :: real) ^ 25 < x ^ 25" unfolding p by (simp add: power_divide)
  then have lo: "29 / 35 < x"
    by (rule power_less_imp_less_base) (use x0 in simp)
  have "x ^ 25 < (31 / 33 :: real) ^ 25" unfolding p by (simp add: power_divide)
  then have hi: "x < 31 / 33"
    by (rule power_less_imp_less_base) simp
  from lo hi show ?thesis unfolding x_def by simp
qed

lemma calcolaELO_1516_1484:
  "calcolaELO 1516 1484 1 32 = 1531 \<and> calcolaELO 1484 1516 0 32 = 1469"
proof -
  define x :: real where "x = 10 powr (- (2 / 25))"
  have b: "29 / 35 < x" "x < 31 / 33"
    using dieci_powr_bounds by (simp_all add: x_def)
  then have x0: "0 < x" by simp
  have inv: "(10::real) powr (2 / 25) = 1 / x"
    unfolding x_def by (simp add: powr_minus_divide)
  have a1: "atteso 1516 1484 = 1 / (1 + x)"
    by (simp add: atteso_def Math_pow_def x_def)
  have a2: "atteso 1484 1516 = x / (1 + x)"
    using x0 by (simp add: atteso_def Math_pow_def inv field_simps)
  have q: "33 / 2 < 32 / (1 + x)" "32 / (1 + x) < 35 / 2"
    using b x0 by (simp_all add: field_simps)
  have r: "32 * x / (1 + x) = 32 - 32 / (1 + x)"
    using x0 by (simp add: field_simps)
  have "\<lfloor>1516 + 32 * (1 - 1 / (1 + x)) + 1 / 2\<rfloor> = 1531"
    using q by (simp add: floor_eq_iff algebra_simps)
  moreover have "\<lfloor>1484 + 32 * (0 - x / (1 + x)) + 1 / 2\<rfloor> = 1469"
  proof -
    have "1484 + 32 * (0 - x / (1 + x)) + 1 / 2 = 2905 / 2 + 32 / (1 + x)"
      using r by simp
    moreover have "\<lfloor>2905 / 2 + 32 / (1 + x)\<rfloor> = 1469"
      using q by (simp add: floor_eq_iff)
    ultimately show ?thesis by simp
  qed
  ultimately show ?thesis
    by (simp add: calcolaELO_def Math_round_def a1 a2)
qed

lemma dopo_due_partite_eq:
  "dopo_due_partite =
     \<lparr>t_giocatori =
        [\<lparr>id_g = 1, nome = ''Mario'', ruolo = portiere, elo = 1531, partite = 2, vittorie = 2, sconfitte = 0\<rparr>,
         \<lparr>id_g = 2, nome = ''Luigi'', ruolo = attaccante, elo = 1531, partite = 2, vittorie = 2, sconfitte = 0\<rparr>,
         \<lparr>id_g = 3, nome = ''Paolo'', ruolo = portiere, elo = 1469, partite = 2, vittorie = 0, sconfitte = 2\<rparr>,
         \<lparr>id_g = 4, nome = ''Marco'', ruolo = attaccante, elo = 1469, partite = 2, vittorie = 0, sconfitte = 2\<rparr>,
         \<lparr>id_g = 5, nome = ''Giovanni'', ruolo = portiere, elo = 1500, partite = 0, vittorie = 0, sconfitte = 0\<rparr>,
         \<lparr>id_g = 6, nome = ''Luca'', ruolo = attaccante, elo = 1500, partite = 0, vittorie = 0, sconfitte = 0\<rparr>],
      giocatori_auto = 7,
      t_partite = [\<lparr>id_p = 1, squadra1 = (1, 2), squadra2 = (3, 4), vincitore = 1\<rparr>,
                   \<lparr>id_p = 2, squadra1 = (1, 2), squadra2 = (3, 4), vincitore = 1\<rparr>],
      partite_auto = 3\<rparr>"
  unfolding dopo_due_partite_def createPartita_dopo_esempi
  by (simp add: createPartita_def createPartita_try_def createPartita_scrivi_def Let_def
      nessun_guasto_def createConnection_def beginTransaction_def vista_def
      SELECT_id_elo_def crea_eloMap_def execute_def commit_def end_connection_def
      UPDATE_giocatori_def INSERT_partite_def CHECK_vincitore_def
      calcolaELO_1516_1484)

lemma dopo_due_partite_raggiungibile: "raggiungibile dopo_due_partite"
  unfolding dopo_due_partite_def by (intro raggiungibile.intros)

lemma mezzo_non_intero: "(of_int n + 1 / 2 :: real) \<notin> \<int>"
proof
  assume "(of_int n + 1 / 2 :: real) \<in> \<int>"
  then obtain m :: int where "(of_int n + 1 / 2 :: real) = of_int m"
    by (auto elim: Ints_cases)
  then have "(of_int (2 * n + 1) :: real) = of_int (2 * m)" by simp
  then have "2 * n + 1 = 2 * m" by (simp only: of_int_eq_iff)
  then show False by presburger
qed

lemma terza_partita_non_intera:
  "\<exists>r s' e. createPartita nessun_guasto dopo_due_partite (1, 5) (3, 6) 1 = (Inr r, s')
     \<and> elo_di s' 1 = Some e \<and> e \<notin> \<int>"
proof -
  let ?s = dopo_due_partite
  have pk: "chiave_primaria ?s"
    by (simp add: chiave_primaria_def dopo_due_partite_eq)
  have "\<exists>r s'. createPartita nessun_guasto ?s (1, 5) (3, 6) 1 = (Inr r, s')"
    by (rule createPartita_riesce [OF pk])
       (simp_all add: dopo_due_partite_eq CHECK_vincitore_def nessun_guasto_def)
  then obtain r s' where res: "createPartita nessun_guasto ?s (1, 5) (3, 6) 1 = (Inr r, s')"
    by blast
  from createPartita_successo [OF pk res]
  obtain e10 e11 e20 e21 where
    e: "elo_di ?s (fst (1, 5)) = Some e10" "elo_di ?s (snd (1, 5 :: nat)) = Some e11"
    and r: "squadra1_delta r =
              of_int (calcolaELO ((e10 + e11) / 2) ((e20 + e21) / 2) (if (1::int) = 1 then 1 else 0) 32)
                - (e10 + e11) / 2"
    and s': "s' = dopo_partita ?s (1, 5) (3, 6) 1 (squadra1_delta r) (squadra2_delta r)"
    by auto
  from e have e10: "e10 = 1531" and e11: "e11 = 1500"
    by (simp_all add: elo_di_def dopo_due_partite_eq)
  define N where "N = calcolaELO ((e10 + e11) / 2) ((e20 + e21) / 2) 1 32"
  have d: "squadra1_delta r = of_int N - 3031 / 2"
    using r by (simp add: N_def e10 e11)
  have "elo_di s' 1 = Some (1531 + squadra1_delta r)"
    unfolding s' by (simp add: elo_di_def dopo_partita_def dopo_due_partite_eq gioca_def)
  moreover have "1531 + squadra1_delta r = of_int (N + 15) + 1 / 2"
    unfolding d by simp
  ultimately have "elo_di s' 1 = Some (of_int (N + 15) + 1 / 2)" by simp
  with res mezzo_non_intero [of "N + 15"] show ?thesis by blast
qed

section \<open>Double arithmetic\<close>

text \<open>
  Rounding to the nearest double: the error of \<open>fl\<close> below \<open>2 ^ n\<close> is at most
  \<open>2 ^ (n - 54)\<close>, and a number that is a double is returned as it is.
\<close>

lemma round_half_even_int: "round_half_even (of_int n) = n"
  by (simp add: round_half_even_def)

lemma round_half_even_err: "\<bar>of_int (round_half_even m) - m\<bar> \<le> 1 / 2"
  unfolding round_half_even_def Let_def
  by (auto simp: abs_le_iff)


lemma log2_floor_bounds:
  assumes "0 < x"
  shows "2 powr of_int \<lfloor>log 2 x\<rfloor> \<le> x" and "x < 2 powr (of_int \<lfloor>log 2 x\<rfloor> + 1)"
proof -
  have x: "2 powr log 2 x = x" using assms by simp
  have "of_int \<lfloor>log 2 x\<rfloor> \<le> log 2 x" by simp
  then have "2 powr of_int \<lfloor>log 2 x\<rfloor> \<le> 2 powr log 2 x"
    by (simp only: powr_le_cancel_iff) 
  then show "2 powr of_int \<lfloor>log 2 x\<rfloor> \<le> x" using x by simp
  have "log 2 x < of_int \<lfloor>log 2 x\<rfloor> + 1" by linarith
  then have "2 powr log 2 x < 2 powr (of_int \<lfloor>log 2 x\<rfloor> + 1)"
    by (simp only: powr_less_cancel_iff)
  then show "x < 2 powr (of_int \<lfloor>log 2 x\<rfloor> + 1)" using x by simp
qed

lemma log2_floor_less:
  assumes "0 < x" "x < 2 powr of_int n"
  shows "\<lfloor>log 2 x\<rfloor> < n"
proof -
  have "(2::real) powr of_int \<lfloor>log 2 x\<rfloor> < 2 powr of_int n"
    using log2_floor_bounds(1) [OF assms(1)] assms(2) by linarith
  then have "(of_int \<lfloor>log 2 x\<rfloor> :: real) < of_int n" by simp
  then show ?thesis by simp
qed

lemma log2_floor_eq:
  assumes "2 powr of_int n \<le> x" "x < 2 powr (of_int n + 1)"
  shows "\<lfloor>log 2 x\<rfloor> = n"
proof -
  have x0: "0 < x" using assms(1) by (smt (verit) powr_gt_zero)
  have "\<lfloor>log 2 x\<rfloor> < n + 1"
    using log2_floor_less [OF x0, of "n + 1"] assms(2) by simp
  moreover have "n \<le> \<lfloor>log 2 x\<rfloor>"
  proof -
    have "(2::real) powr of_int n < 2 powr (of_int \<lfloor>log 2 x\<rfloor> + 1)"
      using log2_floor_bounds(2) [OF x0] assms(1) by linarith
    then have "(of_int n :: real) < of_int \<lfloor>log 2 x\<rfloor> + 1" by simp
    then show ?thesis by linarith
  qed
  ultimately show ?thesis by linarith
qed

lemma fl_zero: "fl 0 = Finite 0"
  by (simp add: fl_def)


lemma max_double_bound: "(2::real) ^ 1023 + 2 ^ 969 \<le> max_double"
  by (simp add: max_double_def)

lemma fl_errore:
  assumes "\<bar>x\<bar> < 2 powr of_int n" and "- 1021 \<le> n" and "n \<le> 1023"
  shows "\<exists>y. fl x = Finite y \<and> \<bar>y - x\<bar> \<le> 2 powr (of_int n - 54)"
proof (cases "x = 0")
  case True
  then show ?thesis by (simp add: fl_zero)
next
  case False
  define q :: real where "q = 2 powr of_int (ulp_exp x)"
  define y :: real where "y = of_int (round_half_even (x / q)) * q"
  have q0: "0 < q" by (simp add: q_def)
  have "\<lfloor>log 2 \<bar>x\<bar>\<rfloor> < n"
    by (rule log2_floor_less) (use False assms(1) in simp_all)
  then have "ulp_exp x \<le> n - 53"
    using assms(2) by (simp add: ulp_exp_def)
  then have "(of_int (ulp_exp x) :: real) \<le> of_int n - 53" 
    by (metis of_int_diff of_int_le_iff of_int_numeral)
  then have q: "q \<le> 2 powr (of_int n - 53)"
    unfolding q_def by (simp only: powr_le_cancel_iff) 
  have "y - x = (of_int (round_half_even (x / q)) - x / q) * q"
    using q0 by (simp add: y_def field_simps)
  then have "\<bar>y - x\<bar> = \<bar>of_int (round_half_even (x / q)) - x / q\<bar> * q"
    using q0 by (simp add: abs_mult)
  also have "\<dots> \<le> 1 / 2 * q"
    using round_half_even_err [of "x / q"] q0 by (intro mult_right_mono) simp_all
  also have "\<dots> \<le> 1 / 2 * 2 powr (of_int n - 53)"
    using q by simp
  also have "\<dots> = 2 powr (of_int n - 54)"
  proof -
    have "(2::real) powr (of_int n - 53) = 2 powr (of_int n - 54 + 1)" by simp
    also have "\<dots> = 2 powr (of_int n - 54) * 2" by (simp only: powr_add) simp
    finally show ?thesis by simp
  qed
  finally have err: "\<bar>y - x\<bar> \<le> 2 powr (of_int n - 54)" .
  have a: "(2::real) powr of_int n \<le> 2 ^ 1023"
  proof -
    have "(2::real) powr of_int n \<le> 2 powr 1023"
      using assms(3) by (intro powr_mono) simp_all
    then show ?thesis by simp
  qed
  have b: "(2::real) powr (of_int n - 54) \<le> 2 ^ 969"
  proof -
    have "(2::real) powr (of_int n - 54) \<le> 2 powr 969"
      using assms(3) by (intro powr_mono) simp_all
    then show ?thesis by simp
  qed
  have "\<bar>y\<bar> \<le> \<bar>x\<bar> + \<bar>y - x\<bar>" by simp
  with err assms(1) a b have "\<bar>y\<bar> \<le> 2 ^ 1023 + 2 ^ 969" by linarith
  with max_double_bound have "\<bar>y\<bar> \<le> max_double" by linarith
  then have "\<not> max_double < y" "\<not> y < - max_double" by simp_all
  then have "fl x = Finite y"
    using False unfolding fl_def Let_def q_def [symmetric] y_def [symmetric] by simp
  with err show ?thesis by blast
qed

lemma fl_esatto:
  assumes x: "x = of_int j * 2 powr of_int e0"
    and j: "\<bar>j\<bar> < 2 ^ 53" and e0: "- 1074 \<le> e0" "e0 \<le> 971"
  shows "fl x = Finite x"
proof (cases "x = 0")
  case True
  then show ?thesis by (simp add: fl_zero)
next
  case False
  define e where "e = ulp_exp x"
  define q :: real where "q = 2 powr of_int e"
  have q0: "0 < q" by (simp add: q_def)
  have "\<bar>x\<bar> = of_int \<bar>j\<bar> * 2 powr of_int e0"
    by (simp add: x abs_mult)
  also have "\<dots> < 2 ^ 53 * 2 powr of_int e0"
  proof -
    have "(of_int \<bar>j\<bar> :: real) < of_int (2 ^ 53)" using j by (simp only: of_int_less_iff)
    then show ?thesis by simp
  qed
  also have "\<dots> = 2 powr 53 * 2 powr of_int e0" by simp
  also have "\<dots> = 2 powr of_int (53 + e0)" by (simp add: powr_add)
  finally have "\<lfloor>log 2 \<bar>x\<bar>\<rfloor> < 53 + e0"
    by (intro log2_floor_less) (use False in simp_all)
  then have ee: "e \<le> e0" using e0(1) by (simp add: e_def ulp_exp_def)
  define d where "d = nat (e0 - e)"
  have d: "of_int e0 = of_int e + real d" using ee by (simp add: d_def)
  have "2 powr of_int e0 = q * 2 ^ d"
    unfolding d q_def by (simp add: powr_add powr_realpow)
  then have "x / q = of_int (j * 2 ^ d)"
    using q0 by (simp add: x)
  then have "of_int (round_half_even (x / q)) * q = x"
    using q0 by (simp only: round_half_even_int) (simp add: field_simps)
  moreover have "\<bar>x\<bar> \<le> max_double"
  proof -
    have "(of_int \<bar>j\<bar> :: real) \<le> of_int (2 ^ 53 - 1)" using j by (simp only: of_int_le_iff)
    moreover have "(2::real) powr of_int e0 \<le> 2 powr 971"
      using e0(2) by (intro powr_mono) simp_all
    ultimately have "of_int \<bar>j\<bar> * 2 powr of_int e0 \<le> (2 ^ 53 - 1) * (2::real) powr 971"
      by (intro mult_mono) simp_all
    then show ?thesis by (simp add: x abs_mult max_double_def)
  qed
  ultimately show ?thesis
    using False unfolding fl_def Let_def e_def [symmetric] q_def [symmetric]
    by (simp add: abs_le_iff not_less)
qed

lemma fl_mezzi:
  assumes "x = of_int j / 2" and "\<bar>j\<bar> < 2 ^ 53"
  shows "fl x = Finite x"
  by (rule fl_esatto [of x j "- 1"]) (use assms in \<open>simp_all add: powr_minus_divide\<close>)

lemma fl_intero:
  assumes "\<bar>j\<bar> < 2 ^ 53"
  shows "fl (of_int j) = Finite (of_int j)"
  by (rule fl_esatto [of "of_int j" j 0]) (use assms in simp_all)




lemma fl_2_53_1: "fl (2 ^ 53 + 1) = Finite (2 ^ 53)"
proof -
  have "\<lfloor>log 2 \<bar>2 ^ 53 + 1 :: real\<bar>\<rfloor> = 53"
    by (rule log2_floor_eq) simp_all
  then have u: "ulp_exp (2 ^ 53 + 1) = 1" by (simp add: ulp_exp_def)
  have r: "round_half_even ((2 ^ 53 + 1 :: real) / 2 powr of_int 1) = 2 ^ 52"
    by (simp add: round_half_even_def Let_def)
  show ?thesis
    unfolding fl_def Let_def u r by (simp add: max_double_def)
qed

subsection \<open>The rating function\<close>

lemma atteso_double_pari: "atteso_double pw a a = Finite (1 / 2)"
proof -
  have 2: "fl 2 = Finite 2" using fl_intero [of 2] by simp
  have h: "fl (1 / 2) = Finite (1 / 2)" using fl_mezzi [of "1 / 2" 1] by simp
  show ?thesis
    by (simp add: atteso_double_def num_sub_def fl_zero Math_pow10_def 2 h)
qed

lemma valore_double_pari_vittoria:
  assumes "\<bar>k\<bar> < 2 ^ 53"
  shows "valore_double pw a a 1 (of_int k) = fl (a + of_int k / 2)"
proof -
  have h: "fl (1 / 2) = Finite (1 / 2)" using fl_mezzi [of "1 / 2" 1] by simp
  have m: "fl (of_int k / 2) = Finite (of_int k / 2)"
    by (rule fl_mezzi [of _ k]) (use assms in simp_all)
  show ?thesis
    by (simp add: valore_double_def atteso_double_pari num_sub_def h m)
qed

lemma valore_double_pari_sconfitta:
  assumes "\<bar>k\<bar> < 2 ^ 53"
  shows "valore_double pw a a 0 (of_int k) = fl (a - of_int k / 2)"
proof -
  have h: "fl (- (1 / 2)) = Finite (- (1 / 2))" using fl_mezzi [of "- (1 / 2)" "- 1"] by simp
  have m: "fl (- (of_int k / 2)) = Finite (- (of_int k / 2))"
    by (rule fl_mezzi [of _ "- k"]) (use assms in simp_all)
  show ?thesis
    by (simp add: valore_double_def atteso_double_pari num_sub_def h m)
qed




text \<open>
  At equal ratings that are halves of integers below \<open>2 ^ 51\<close> the double reading and
  the exact reading agree, whatever the implementation of \<open>Math.pow\<close>.
\<close>

lemma calcolaELO_double_esatto_vittoria:
  assumes "\<bar>i\<bar> \<le> 2 ^ 51" "\<bar>k\<bar> \<le> 2 ^ 51"
  shows "calcolaELO_double pw (of_int i / 2) (of_int i / 2) 1 (of_int k)
         = Finite (of_int (calcolaELO (of_int i / 2) (of_int i / 2) 1 (of_int k)))"
proof -
  have k: "\<bar>k\<bar> < 2 ^ 53" using assms(2) by simp
  have "fl (of_int i / 2 + of_int k / 2) = Finite (of_int i / 2 + of_int k / 2)"
    by (rule fl_mezzi [of _ "i + k"]) (use assms in simp_all)
  then show ?thesis
    by (simp add: calcolaELO_double_def valore_double_pari_vittoria [OF k]
        calcolaELO_def atteso_uguali Math_round_def)
qed

lemma calcolaELO_double_esatto_sconfitta:
  assumes "\<bar>i\<bar> \<le> 2 ^ 51" "\<bar>k\<bar> \<le> 2 ^ 51"
  shows "calcolaELO_double pw (of_int i / 2) (of_int i / 2) 0 (of_int k)
         = Finite (of_int (calcolaELO (of_int i / 2) (of_int i / 2) 0 (of_int k)))"
proof -
  have k: "\<bar>k\<bar> < 2 ^ 53" using assms(2) by simp
  have "fl (of_int i / 2 - of_int k / 2) = Finite (of_int i / 2 - of_int k / 2)"
    by (rule fl_mezzi [of _ "i - k"]) (use assms in simp_all)
  then show ?thesis
    by (simp add: calcolaELO_double_def valore_double_pari_sconfitta [OF k]
        calcolaELO_def atteso_uguali Math_round_def)
qed

lemma calcolaELO_double_mezzi:
  fixes i k :: int
  assumes i: "\<bar>i\<bar> \<le> 2 ^ 51" and k: "\<bar>k\<bar> \<le> 2 ^ 51"
  shows "calcolaELO_double pw (of_int i / 2) (of_int i / 2) 1 (of_int k)
           = Finite (of_int ((i + k + 1) div 2))"
    and "calcolaELO_double pw (of_int i / 2) (of_int i / 2) 0 (of_int k)
           = Finite (of_int ((i - k + 1) div 2))"
proof -
  have k53: "\<bar>k\<bar> < 2 ^ 53" using k by simp
  have 1: "fl (of_int i / 2 + of_int k / 2) = Finite (of_int (i + k) / 2)"
    using fl_mezzi [of "of_int (i + k) / 2" "i + k"] i k by (simp add: add_divide_distrib)
  have 2: "fl (of_int i / 2 - of_int k / 2) = Finite (of_int (i - k) / 2)"
    using fl_mezzi [of "of_int (i - k) / 2" "i - k"] i k by (simp add: diff_divide_distrib)
  have f: "\<And>j :: int. \<lfloor>real_of_int j / 2 + 1 / 2\<rfloor> = (j + 1) div 2"
  proof -
    fix j :: int
    have "real_of_int j / 2 + 1 / 2 = real_of_int (j + 1) / real_of_int 2" by simp
    then show "\<lfloor>real_of_int j / 2 + 1 / 2\<rfloor> = (j + 1) div 2"
      by (simp only: floor_divide_of_int_eq)
  qed
  show "calcolaELO_double pw (of_int i / 2) (of_int i / 2) 1 (of_int k)
           = Finite (of_int ((i + k + 1) div 2))"
    unfolding calcolaELO_double_def valore_double_pari_vittoria [OF k53] 1
    by (simp only: Math_round_d.simps f)
  show "calcolaELO_double pw (of_int i / 2) (of_int i / 2) 0 (of_int k)
           = Finite (of_int ((i - k + 1) div 2))"
    unfolding calcolaELO_double_def valore_double_pari_sconfitta [OF k53] 2
    by (simp only: Math_round_d.simps f)
qed

section \<open>Counters that do not decrease\<close>

lemma non_decrescente_sottoinsieme:
  "set (t_giocatori s) \<subseteq> set (t_giocatori s') \<Longrightarrow> non_decrescente s s'"
  by (auto simp: non_decrescente_def list_all_iff list_ex_iff)

lemma inserisci_esempi_righe:
  "set (t_giocatori d) \<subseteq> set (t_giocatori (inserisci_esempi f n ps d))"
proof (induction ps arbitrary: n d)
  case Nil
  show ?case by simp
next
  case (Cons p ps)
  have "set (t_giocatori d) \<subseteq> set (t_giocatori (INSERT_giocatori_default (fst p) (snd p) d))"
    by (auto simp: INSERT_giocatori_default_def INSERT_giocatori_def)
  also have "\<dots> \<subseteq> set (t_giocatori (inserisci_esempi f (Suc n) ps
                                        (INSERT_giocatori_default (fst p) (snd p) d)))"
    by (rule Cons.IH)
  finally show ?case by simp
qed

lemma non_decrescente_insertSampleData: "non_decrescente s (insertSampleData f s)"
  by (rule non_decrescente_sottoinsieme)
    (simp add: insertSampleData_def Let_def inserisci_esempi_righe)

lemma non_decrescente_createGiocatore: "non_decrescente s (snd (createGiocatore f s n r))"
  by (rule non_decrescente_sottoinsieme)
    (auto simp: createGiocatore_def Let_def INSERT_giocatori_def)

lemma non_decrescente_dopo_partita:
  "non_decrescente s (dopo_partita s sq1 sq2 v d1 d2)"
proof -
  define u where "u = (\<lambda>g. if id_g g = fst sq1 \<or> id_g g = snd sq1
                    then gioca d1 (if v = 1 then 1 else 0) g
                  else if id_g g = fst sq2 \<or> id_g g = snd sq2
                    then gioca d2 (if v = 2 then 1 else 0) g
                  else g)"
  have rows: "t_giocatori (dopo_partita s sq1 sq2 v d1 d2) = map u (t_giocatori s)"
    by (simp add: dopo_partita_def u_def)
  have u: "\<And>g. id_g (u g) = id_g g \<and> partite g \<le> partite (u g)
               \<and> vittorie g \<le> vittorie (u g) \<and> sconfitte g \<le> sconfitte (u g)"
    by (simp add: u_def gioca_def)
  show ?thesis
    unfolding non_decrescente_def rows list_all_iff list_ex_iff
    using u by auto
qed

lemma non_decrescente_createPartita:
  assumes "chiave_primaria s"
  shows "non_decrescente s (snd (createPartita f s sq1 sq2 v))"
proof (cases "fst (createPartita f s sq1 sq2 v)")
  case (Inl e)
  then have "snd (createPartita f s sq1 sq2 v) = s" by (rule createPartita_errore)
  then show ?thesis by (simp add: non_decrescente_sottoinsieme)
next
  case (Inr r)
  then have "createPartita f s sq1 sq2 v = (Inr r, snd (createPartita f s sq1 sq2 v))"
    by (simp add: prod_eq_iff)
  from createPartita_successo [OF assms this]
  have "snd (createPartita f s sq1 sq2 v)
         = dopo_partita s sq1 sq2 v (squadra1_delta r) (squadra2_delta r)"
    by blast
  then show ?thesis
    by (simp add: non_decrescente_dopo_partita)
qed

lemma createGiocatore_dopo_esempi:
  "createGiocatore nessun_guasto (insertSampleData nessun_guasto vuoto) ''Anna'' portiere =
     (Inr \<lparr>id_g = 7, nome = ''Anna'', ruolo = portiere, elo = 1500,
            partite = 0, vittorie = 0, sconfitte = 0\<rparr>,
      \<lparr>t_giocatori = giocatori_di_esempio @
         [\<lparr>id_g = 7, nome = ''Anna'', ruolo = portiere, elo = 1500,
           partite = 0, vittorie = 0, sconfitte = 0\<rparr>],
       giocatori_auto = 8, t_partite = [], partite_auto = 1\<rparr>)"
  unfolding insertSampleData_vuoto
  by (simp add: createGiocatore_def nessun_guasto_def Let_def giocatori_di_esempio_def
      LOWER_def INSERT_giocatori_def)

lemma resetDatabase_dopo_partita:
  "resetDatabase None nessun_guasto
     (snd (createPartita nessun_guasto (insertSampleData nessun_guasto vuoto) (1, 2) (3, 4) 1))
   = (Inr True,
      \<lparr>t_giocatori = giocatori_di_esempio, giocatori_auto = 7, t_partite = [], partite_auto = 1\<rparr>)"
proof -
  have "\<forall>n\<le>6. \<not> nessun_guasto (n + 4)" by (simp add: nessun_guasto_def)
  from insertSampleData_dopo_TRUNCATE [of "\<lambda>n. nessun_guasto (n + 4)", OF this]
  show ?thesis
    unfolding createPartita_dopo_esempi
    by (simp add: resetDatabase_def Let_def nessun_guasto_def TRUNCATE_partite_def)
qed

section \<open>The claims\<close>




text \<open>
  C2.  On \<open>scenario_dispari\<close> (A = 1500, B = 1501, C = 1501, D = 1500) the call
  \<open>createPartita([1, 2], [3, 4], 1)\<close> succeeds.  Both team ratings are the mean 1500.5;
  the new team ratings are 1517 and 1485, so the deltas are +16.5 and -15.5, and the
  values written by \<open>SET elo = ?\<close> are 1516.5, 1517.5, 1485.5 and 1484.5: each member
  moves by the delta of the team, but none of the four ratings is an integer.  Teams
  with an odd rating sum occur in reachable states (\<open>dopo_due_partite_raggiungibile\<close>,
  \<open>terza_partita_non_intera\<close>).
\<close>

theorem createPartita_elo_non_intero:
  "fst (createPartita nessun_guasto scenario_dispari (1, 2) (3, 4) 1) =
     Inr \<lparr>id_p = 1, squadra1 = (1, 2), squadra2 = (3, 4), vincitore = 1,
           squadra1_delta = 33 / 2, squadra2_delta = - (31 / 2)\<rparr>
   \<and> map elo (t_giocatori (snd (createPartita nessun_guasto scenario_dispari (1, 2) (3, 4) 1)))
       = [3033 / 2, 3035 / 2, 2971 / 2, 2969 / 2]
   \<and> (3033 / 2 :: real) \<notin> \<int> \<and> (3035 / 2 :: real) \<notin> \<int>
   \<and> (2971 / 2 :: real) \<notin> \<int> \<and> (2969 / 2 :: real) \<notin> \<int>"
proof -
  have h: "\<And>n. (of_int (2 * n + 1) / 2 :: real) \<notin> \<int>"
  proof
    fix n :: int assume "(of_int (2 * n + 1) / 2 :: real) \<in> \<int>"
    then obtain m :: int where "(of_int (2 * n + 1) / 2 :: real) = of_int m"
      by (auto elim: Ints_cases)
    then have "(of_int (2 * n + 1) :: real) = of_int (2 * m)" by simp
    then have "2 * n + 1 = 2 * m" by (simp only: of_int_eq_iff)
    then show False by presburger
  qed
  have i: "(3033 / 2 :: real) \<notin> \<int>" "(3035 / 2 :: real) \<notin> \<int>"
    "(2971 / 2 :: real) \<notin> \<int>" "(2969 / 2 :: real) \<notin> \<int>"
    using h [of 1516] h [of 1517] h [of 1485] h [of 1484] by simp_all
  have e: "createPartita nessun_guasto scenario_dispari (1, 2) (3, 4) 1 =
     (Inr \<lparr>id_p = 1, squadra1 = (1, 2), squadra2 = (3, 4), vincitore = 1,
           squadra1_delta = 33 / 2, squadra2_delta = - (31 / 2)\<rparr>,
      \<lparr>t_giocatori =
        [\<lparr>id_g = 1, nome = ''A'', ruolo = portiere, elo = 3033 / 2, partite = 1, vittorie = 1, sconfitte = 0\<rparr>,
         \<lparr>id_g = 2, nome = ''B'', ruolo = attaccante, elo = 3035 / 2, partite = 1, vittorie = 1, sconfitte = 0\<rparr>,
         \<lparr>id_g = 3, nome = ''C'', ruolo = portiere, elo = 2971 / 2, partite = 1, vittorie = 0, sconfitte = 1\<rparr>,
         \<lparr>id_g = 4, nome = ''D'', ruolo = attaccante, elo = 2969 / 2, partite = 1, vittorie = 0, sconfitte = 1\<rparr>],
      giocatori_auto = 5,
      t_partite = [\<lparr>id_p = 1, squadra1 = (1, 2), squadra2 = (3, 4), vincitore = 1\<rparr>],
      partite_auto = 2\<rparr>)"
    by (simp add: createPartita_def createPartita_try_def createPartita_scrivi_def Let_def
      nessun_guasto_def scenario_dispari_def createConnection_def beginTransaction_def vista_def
      SELECT_id_elo_def crea_eloMap_def execute_def commit_def end_connection_def
      UPDATE_giocatori_def INSERT_partite_def CHECK_vincitore_def
      calcolaELO_mezzo_v calcolaELO_mezzo_s)
  from i show ?thesis unfolding e by simp
qed

text \<open>
  C3.  Scenario 1: with A, B, C and D at 1500 and no match played, recording that
  team (A, B) beat team (C, D) returns the deltas +16 and -16 and leaves A and B at
  1516 with one match and one win, C and D at 1484 with one match and one loss.
\<close>

theorem scenario1_createPartita:
  "createPartita nessun_guasto scenario1 (1, 2) (3, 4) 1 =
     (Inr \<lparr>id_p = 1, squadra1 = (1, 2), squadra2 = (3, 4), vincitore = 1,
           squadra1_delta = 16, squadra2_delta = - 16\<rparr>,
      \<lparr>t_giocatori =
        [\<lparr>id_g = 1, nome = ''A'', ruolo = portiere, elo = 1516, partite = 1, vittorie = 1, sconfitte = 0\<rparr>,
         \<lparr>id_g = 2, nome = ''B'', ruolo = attaccante, elo = 1516, partite = 1, vittorie = 1, sconfitte = 0\<rparr>,
         \<lparr>id_g = 3, nome = ''C'', ruolo = portiere, elo = 1484, partite = 1, vittorie = 0, sconfitte = 1\<rparr>,
         \<lparr>id_g = 4, nome = ''D'', ruolo = attaccante, elo = 1484, partite = 1, vittorie = 0, sconfitte = 1\<rparr>],
      giocatori_auto = 5,
      t_partite = [\<lparr>id_p = 1, squadra1 = (1, 2), squadra2 = (3, 4), vincitore = 1\<rparr>],
      partite_auto = 2\<rparr>)"
  by (simp add: createPartita_def createPartita_try_def createPartita_scrivi_def Let_def
      nessun_guasto_def scenario1_def createConnection_def beginTransaction_def vista_def
      SELECT_id_elo_def crea_eloMap_def execute_def commit_def end_connection_def
      UPDATE_giocatori_def INSERT_partite_def CHECK_vincitore_def
      calcolaELO_1500_v calcolaELO_1500_s)

text \<open>
  C4.  In double arithmetic, for every rating \<open>r\<close> of magnitude at most \<open>2 ^ 50\<close> and
  every integer \<open>k\<close> from 2 to \<open>2 ^ 50\<close> (\<open>createPartita\<close> uses 32), with any \<open>Math.pow\<close>:
  at equal ratings the winner ends strictly above \<open>r\<close> and the loser strictly below, and
  the winner's gain equals the loser's loss exactly when \<open>r + k / 2\<close> is an integer
  (for an even \<open>k\<close>: when \<open>r\<close> is an integer).
\<close>

theorem calcolaELO_double_parita:
  fixes r :: real and k :: int
  assumes r: "\<bar>r\<bar> \<le> 2 ^ 50" and k2: "2 \<le> k" and k50: "k \<le> 2 ^ 50"
  shows "\<exists>w l. calcolaELO_double pw r r 1 (of_int k) = Finite (of_int w)
           \<and> calcolaELO_double pw r r 0 (of_int k) = Finite (of_int l)
           \<and> r < of_int w \<and> of_int l < r
           \<and> ((of_int w - r = r - of_int l) = (r + of_int k / 2 \<in> \<int>))"
proof -
  have k53: "\<bar>k\<bar> < 2 ^ 53" using k2 k50 by simp
  define h :: real where "h = of_int k / 2"
  have kr: "1 \<le> h" "h \<le> 2 ^ 49"
  proof -
    have "real_of_int 2 \<le> of_int k" using k2 by (simp only: of_int_le_iff)
    then show "1 \<le> h" by (simp add: h_def)
    have "real_of_int k \<le> of_int (2 ^ 50)" using k50 by (simp only: of_int_le_iff)
    then show "h \<le> 2 ^ 49" by (simp add: h_def)
  qed
  have p51: "(2::real) powr of_int 51 = 2 ^ 51" by simp
  have "\<bar>r + h\<bar> < 2 ^ 51" using r kr by (simp add: abs_less_iff abs_le_iff)
  then have "\<bar>r + h\<bar> < 2 powr of_int 51" by (simp only: p51)
  from fl_errore [OF this] obtain y1 where y1: "fl (r + h) = Finite y1"
    and e1: "\<bar>y1 - (r + h)\<bar> \<le> 2 powr (of_int 51 - 54)" by auto
  have "\<bar>r - h\<bar> < 2 ^ 51" using r kr by (simp add: abs_less_iff abs_le_iff)
  then have "\<bar>r - h\<bar> < 2 powr of_int 51" by (simp only: p51)
  from fl_errore [OF this] obtain y2 where y2: "fl (r - h) = Finite y2"
    and e2: "\<bar>y2 - (r - h)\<bar> \<le> 2 powr (of_int 51 - 54)" by auto
  have p: "(2::real) powr (of_int 51 - 54) = 1 / 8" by (simp add: powr_minus_divide)
  define w where "w = \<lfloor>y1 + 1 / 2\<rfloor>"
  define l where "l = \<lfloor>y2 + 1 / 2\<rfloor>"
  have cw: "calcolaELO_double pw r r 1 (of_int k) = Finite (of_int w)"
    using y1 by (simp add: calcolaELO_double_def valore_double_pari_vittoria [OF k53] w_def h_def)
  have cl: "calcolaELO_double pw r r 0 (of_int k) = Finite (of_int l)"
    using y2 by (simp add: calcolaELO_double_def valore_double_pari_sconfitta [OF k53] l_def h_def)
  have "y1 - 1 / 2 < of_int w" unfolding w_def by linarith
  with e1 kr have gt: "r < of_int w" unfolding p by linarith
  have "of_int l \<le> y2 + 1 / 2" unfolding l_def by linarith
  with e2 kr have lt: "of_int l < r" unfolding p by linarith
  have key: "(of_int w - r = r - of_int l) = (r + of_int k / 2 \<in> \<int>)"
    if ri: "r = of_int i / 2" for i :: int
  proof -
    have "\<bar>real_of_int i\<bar> \<le> 2 ^ 51" using r ri by simp
    then have "real_of_int \<bar>i\<bar> \<le> real_of_int (2 ^ 51)" by simp
    then have i: "\<bar>i\<bar> \<le> 2 ^ 51" by (simp only: of_int_le_iff)
    have k51: "\<bar>k\<bar> \<le> 2 ^ 51" using k2 k50 by simp
    have "Finite (of_int w) = Finite (real_of_int ((i + k + 1) div 2))"
      using calcolaELO_double_mezzi(1) [OF i k51, of pw] cw by (simp add: ri)
    then have w: "w = (i + k + 1) div 2" by simp
    have "Finite (of_int l) = Finite (real_of_int ((i - k + 1) div 2))"
      using calcolaELO_double_mezzi(2) [OF i k51, of pw] cl by (simp add: ri)
    then have l: "l = (i - k + 1) div 2" by simp
    have "(of_int w - r = r - of_int l) = (real_of_int (2 * w - i) = real_of_int (i - 2 * l))"
      by (auto simp: ri field_simps)
    also have "\<dots> = (2 * w - i = i - 2 * l)" by (simp only: of_int_eq_iff)
    also have "\<dots> = even (i + k)" unfolding w l by presburger
    also have "\<dots> = (real_of_int (i + k) / 2 \<in> \<int>)"
    proof
      assume "even (i + k)"
      then obtain t where "i + k = 2 * t" by (rule evenE)
      then show "real_of_int (i + k) / 2 \<in> \<int>" by simp
    next
      assume "real_of_int (i + k) / 2 \<in> \<int>"
      then obtain t :: int where "real_of_int (i + k) / 2 = of_int t"
        by (auto elim: Ints_cases)
      then have "real_of_int (i + k) = of_int (2 * t)" by simp
      then have "i + k = 2 * t" by (simp only: of_int_eq_iff)
      then show "even (i + k)" by simp
    qed
    also have "real_of_int (i + k) / 2 = r + of_int k / 2"
      by (simp add: ri add_divide_distrib)
    finally show ?thesis .
  qed
  have iff: "(of_int w - r = r - of_int l) = (r + of_int k / 2 \<in> \<int>)"
  proof (cases "\<exists>i :: int. r = of_int i / 2")
    case True
    then show ?thesis using key by blast
  next
    case False
    have "\<not> (of_int w - r = r - of_int l)"
    proof
      assume "of_int w - r = r - of_int l"
      then have "r = of_int (w + l) / 2" by simp
      with False show False by blast
    qed
    moreover have "r + of_int k / 2 \<notin> \<int>"
    proof
      assume "r + of_int k / 2 \<in> \<int>"
      then obtain t :: int where "r + of_int k / 2 = of_int t"
        by (auto elim: Ints_cases)
      then have "r = of_int (2 * t - k) / 2" by (simp add: field_simps)
      with False show False by blast
    qed
    ultimately show ?thesis by simp
  qed
  from cw cl gt lt iff show ?thesis by blast
qed

text \<open>
  An instance: at \<open>r = 1500\<close> and \<open>k = 32\<close> the results are 1516 and 1484.
\<close>

theorem calcolaELO_double_parita_witness:
  "calcolaELO_double pow_corretto 1500 1500 1 32 = Finite 1516
   \<and> calcolaELO_double pow_corretto 1500 1500 0 32 = Finite 1484
   \<and> (1500 :: real) + real_of_int 32 / 2 \<in> \<int>"
proof -
  have v: "calcolaELO_double pow_corretto 1500 1500 1 32 = Finite 1516"
    using calcolaELO_double_mezzi(1) [of 3000 32 pow_corretto] by simp
  have s: "calcolaELO_double pow_corretto 1500 1500 0 32 = Finite 1484"
    using calcolaELO_double_mezzi(2) [of 3000 32 pow_corretto] by simp
  from calcolaELO_double_parita [of 1500 32 pow_corretto]
  obtain w l where "calcolaELO_double pow_corretto 1500 1500 1 32 = Finite (of_int w)"
    and "calcolaELO_double pow_corretto 1500 1500 0 32 = Finite (of_int l)"
    and "(real_of_int w - 1500 = 1500 - real_of_int l) = ((1500 :: real) + real_of_int 32 / 2 \<in> \<int>)"
    by auto
  with v s have "(1500 :: real) + real_of_int 32 / 2 \<in> \<int>" by simp
  with v s show ?thesis by simp
qed

text \<open>
  Outside these bounds the property fails.  With \<open>k = 1\<close> the loser at 1500 stays at
  1500.  At the half-integer rating 1500.5 with \<open>k = 32\<close> the winner gains 16.5 and the
  loser loses 15.5.  At \<open>r = 2 ^ 53\<close> with \<open>k = 2\<close> the winner stays at \<open>2 ^ 53\<close>, because
  \<open>2 ^ 53 + 1\<close> is not a double.
\<close>

theorem calcolaELO_double_parita_counterexample:
  "calcolaELO_double pow_corretto 1500 1500 0 1 = Finite 1500
   \<and> calcolaELO_double pow_corretto (3001 / 2) (3001 / 2) 1 32 = Finite 1517
   \<and> calcolaELO_double pow_corretto (3001 / 2) (3001 / 2) 0 32 = Finite 1485
   \<and> calcolaELO_double pow_corretto (2 ^ 53) (2 ^ 53) 1 2 = Finite (2 ^ 53)"
proof -
  have a: "calcolaELO_double pow_corretto 1500 1500 0 1 = Finite 1500"
    using calcolaELO_double_mezzi(2) [of 3000 1 pow_corretto] by simp
  have b: "calcolaELO_double pow_corretto (3001 / 2) (3001 / 2) 1 32 = Finite 1517"
    using calcolaELO_double_mezzi(1) [of 3001 32 pow_corretto] by simp
  have c: "calcolaELO_double pow_corretto (3001 / 2) (3001 / 2) 0 32 = Finite 1485"
    using calcolaELO_double_mezzi(2) [of 3001 32 pow_corretto] by simp
  have "valore_double pow_corretto (2 ^ 53) (2 ^ 53) 1 (of_int 2) = fl (2 ^ 53 + of_int 2 / 2)"
    by (rule valore_double_pari_vittoria) simp
  then have "valore_double pow_corretto (2 ^ 53) (2 ^ 53) 1 2 = Finite (2 ^ 53)"
    using fl_2_53_1 by simp
  then have d: "calcolaELO_double pow_corretto (2 ^ 53) (2 ^ 53) 1 2 = Finite (2 ^ 53)"
    by (simp add: calcolaELO_double_def)
  from a b c d show ?thesis by simp
qed

text \<open>
  C5.  \<open>createPartita\<close> is atomic, whatever driver calls fail: when it throws, the two
  tables are as before the call; when it returns, the store is the one of before with
  the four player rows updated and one match row appended; and it throws whenever one
  of the calls 0 to 8 (connection, begin, fetch, four updates, insert, commit) fails.
  The hypothesis is the primary key of \<open>giocatori\<close>, which every reachable state has
  (\<open>raggiungibile_chiave_primaria\<close>).
\<close>

theorem createPartita_atomica:
  assumes "chiave_primaria s"
  shows "(\<forall>e. fst (createPartita f s sq1 sq2 v) = Inl e \<longrightarrow>
            t_giocatori (snd (createPartita f s sq1 sq2 v)) = t_giocatori s
          \<and> t_partite (snd (createPartita f s sq1 sq2 v)) = t_partite s)
       \<and> (\<forall>r. fst (createPartita f s sq1 sq2 v) = Inr r \<longrightarrow>
            snd (createPartita f s sq1 sq2 v)
              = dopo_partita s sq1 sq2 v (squadra1_delta r) (squadra2_delta r))
       \<and> ((\<exists>n\<le>8. f n) \<longrightarrow> (\<exists>e. fst (createPartita f s sq1 sq2 v) = Inl e))"
proof (intro conjI allI impI)
  fix e assume "fst (createPartita f s sq1 sq2 v) = Inl e"
  then have "snd (createPartita f s sq1 sq2 v) = s" by (rule createPartita_errore)
  then show "t_giocatori (snd (createPartita f s sq1 sq2 v)) = t_giocatori s"
    and "t_partite (snd (createPartita f s sq1 sq2 v)) = t_partite s" by simp_all
next
  fix r assume "fst (createPartita f s sq1 sq2 v) = Inr r"
  then have "createPartita f s sq1 sq2 v = (Inr r, snd (createPartita f s sq1 sq2 v))"
    by (simp add: prod_eq_iff)
  from createPartita_successo [OF assms this]
  show "snd (createPartita f s sq1 sq2 v)
          = dopo_partita s sq1 sq2 v (squadra1_delta r) (squadra2_delta r)"
    by blast
next
  assume g: "\<exists>n\<le>8. f n"
  show "\<exists>e. fst (createPartita f s sq1 sq2 v) = Inl e"
  proof (cases "fst (createPartita f s sq1 sq2 v)")
    case (Inl e)
    then show ?thesis by blast
  next
    case (Inr r)
    from createPartita_Inr_nessun_guasto [OF this] g show ?thesis by blast
  qed
qed

text \<open>
  An instance: the insert of the match row (call 7) fails after the four player
  updates; the call throws that error and both tables are as before.
\<close>

theorem createPartita_atomica_witness:
  "chiave_primaria scenario1
   \<and> fst (createPartita (\<lambda>n. n = 7) scenario1 (1, 2) (3, 4) 1) = Inl (StoreError 7)
   \<and> t_giocatori (snd (createPartita (\<lambda>n. n = 7) scenario1 (1, 2) (3, 4) 1)) = t_giocatori scenario1
   \<and> t_partite (snd (createPartita (\<lambda>n. n = 7) scenario1 (1, 2) (3, 4) 1)) = t_partite scenario1"
proof -
  have e: "fst (createPartita (\<lambda>n. n = 7) scenario1 (1, 2) (3, 4) 1) = Inl (StoreError 7)"
    by (simp add: createPartita_def createPartita_try_def createPartita_scrivi_def Let_def
      scenario1_def createConnection_def beginTransaction_def vista_def
      SELECT_id_elo_def crea_eloMap_def execute_def)
  from createPartita_atomica [OF chiave_scenario1, of "\<lambda>n. n = 7" "(1, 2)" "(3, 4)" 1] e
  show ?thesis by (simp add: chiave_scenario1)
qed

text \<open>
  C6.  When one of the four identifiers is not the \<open>id\<close> of a row, \<open>createPartita\<close>
  throws and leaves the store as it was; the error is \<open>UnknownPlayer\<close> unless the
  driver itself fails on the way (connection, begin, fetch or rollback).  When the four
  identifiers are distinct and all exist, \<open>UnknownPlayer\<close> is not thrown.
\<close>

theorem createPartita_giocatore_sconosciuto:
  assumes "chiave_primaria s"
  shows "(\<not> set [fst sq1, snd sq1, fst sq2, snd sq2] \<subseteq> id_g ` set (t_giocatori s) \<longrightarrow>
            (\<exists>e. createPartita f s sq1 sq2 v = (Inl e, s))
          \<and> (\<not> f 0 \<and> \<not> f 1 \<and> \<not> f 2 \<and> \<not> f 9 \<longrightarrow>
               createPartita f s sq1 sq2 v = (Inl UnknownPlayer, s)))
       \<and> (distinct [fst sq1, snd sq1, fst sq2, snd sq2]
          \<and> set [fst sq1, snd sq1, fst sq2, snd sq2] \<subseteq> id_g ` set (t_giocatori s) \<longrightarrow>
            fst (createPartita f s sq1 sq2 v) \<noteq> Inl UnknownPlayer)"
proof -
  let ?ids = "[fst sq1, snd sq1, fst sq2, snd sq2]"
  have q: "length (SELECT_id_elo s ?ids) = 4
      \<longleftrightarrow> distinct ?ids \<and> set ?ids \<subseteq> id_g ` set (t_giocatori s)"
    by (rule quattro_righe [OF assms]) simp
  show ?thesis
  proof (intro conjI impI)
    assume "\<not> set ?ids \<subseteq> id_g ` set (t_giocatori s)"
    with q have "length (SELECT_id_elo s ?ids) \<noteq> 4" by blast
    then show "\<exists>e. createPartita f s sq1 sq2 v = (Inl e, s)"
      by (rule createPartita_meno_di_quattro)
  next
    assume "\<not> set ?ids \<subseteq> id_g ` set (t_giocatori s)"
      and "\<not> f 0 \<and> \<not> f 1 \<and> \<not> f 2 \<and> \<not> f 9"
    with q show "createPartita f s sq1 sq2 v = (Inl UnknownPlayer, s)"
      by (intro createPartita_sconosciuto) blast+
  next
    assume "distinct ?ids \<and> set ?ids \<subseteq> id_g ` set (t_giocatori s)"
    with q have "length (SELECT_id_elo s ?ids) = 4" by blast
    then show "fst (createPartita f s sq1 sq2 v) \<noteq> Inl UnknownPlayer"
      by (rule createPartita_non_sconosciuto)
  qed
qed

text \<open>An instance of each part: player 9 does not exist; players 1 to 4 do.\<close>

theorem createPartita_giocatore_sconosciuto_witness:
  "chiave_primaria scenario1
   \<and> createPartita nessun_guasto scenario1 (1, 2) (3, 9) 1 = (Inl UnknownPlayer, scenario1)
   \<and> fst (createPartita nessun_guasto scenario1 (1, 2) (3, 4) 1) \<noteq> Inl UnknownPlayer"
proof -
  have a: "\<not> set [fst (1, 2), snd (1, 2), fst (3, 9), snd (3, 9)]
             \<subseteq> id_g ` set (t_giocatori scenario1)"
    by (simp add: scenario1_def)
  have b: "distinct [fst (1, 2), snd (1, 2), fst (3, 4), snd (3, 4 :: nat)]
         \<and> set [fst (1, 2), snd (1, 2), fst (3, 4), snd (3, 4)]
             \<subseteq> id_g ` set (t_giocatori scenario1)"
    by (simp add: scenario1_def)
  from createPartita_giocatore_sconosciuto
         [OF chiave_scenario1, of "(1, 2)" "(3, 9)" nessun_guasto 1] a
  have 1: "createPartita nessun_guasto scenario1 (1, 2) (3, 9) 1 = (Inl UnknownPlayer, scenario1)"
    by (simp add: nessun_guasto_def)
  from createPartita_giocatore_sconosciuto
         [OF chiave_scenario1, of "(1, 2)" "(3, 4)" nessun_guasto 1] b
  have 2: "fst (createPartita nessun_guasto scenario1 (1, 2) (3, 4) 1) \<noteq> Inl UnknownPlayer"
    by blast
  from 1 2 chiave_scenario1 show ?thesis by simp
qed

text \<open>
  C7.  In every reachable state each player has \<open>partite = vittorie + sconfitte\<close> and
  no negative counter.  A created player is appended with all counters zero, and a
  recorded match gives every participant one match more and one win or one loss more,
  leaving the counters of every other player as they were.  No counter of any player
  decreases under \<open>createGiocatore\<close>, \<open>createPartita\<close> and \<open>insertSampleData\<close>, whatever
  their outcome, nor under \<open>resetDatabase\<close> in production.
\<close>

theorem contatori_invariante:
  assumes "raggiungibile s"
  shows "(\<forall>g\<in>set (t_giocatori s).
            partite g = vittorie g + sconfitte g
          \<and> 0 \<le> partite g \<and> 0 \<le> vittorie g \<and> 0 \<le> sconfitte g)
       \<and> (\<forall>f n r g s'. createGiocatore f s n r = (Inr g, s') \<longrightarrow>
            t_giocatori s' = t_giocatori s @ [g]
          \<and> partite g = 0 \<and> vittorie g = 0 \<and> sconfitte g = 0)
       \<and> (\<forall>f sq1 sq2 v r s'. createPartita f s sq1 sq2 v = (Inr r, s') \<longrightarrow>
            map (\<lambda>g. (id_g g, partite g, vittorie g, sconfitte g)) (t_giocatori s')
              = map (\<lambda>g. (id_g g, contatori_dopo sq1 sq2 v g)) (t_giocatori s))
       \<and> (\<forall>f n r. non_decrescente s (snd (createGiocatore f s n r)))
       \<and> (\<forall>f sq1 sq2 v. non_decrescente s (snd (createPartita f s sq1 sq2 v)))
       \<and> (\<forall>f. non_decrescente s (insertSampleData f s))
       \<and> (\<forall>f. non_decrescente s (snd (resetDatabase (Some ''production'') f s)))"
proof -
  from assms have inv: "invariante s" by (rule raggiungibile_invariante)
  then have pk: "chiave_primaria s" by (simp add: invariante_def)
  have 1: "\<forall>g\<in>set (t_giocatori s).
            partite g = vittorie g + sconfitte g
          \<and> 0 \<le> partite g \<and> 0 \<le> vittorie g \<and> 0 \<le> sconfitte g"
    using inv by (simp add: invariante_def list_all_iff contatori_ok_def)
  have 2: "\<forall>f n r g s'. createGiocatore f s n r = (Inr g, s') \<longrightarrow>
            t_giocatori s' = t_giocatori s @ [g]
          \<and> partite g = 0 \<and> vittorie g = 0 \<and> sconfitte g = 0"
    using createGiocatore_Inr by blast
  have 3: "\<forall>f sq1 sq2 v r s'. createPartita f s sq1 sq2 v = (Inr r, s') \<longrightarrow>
            map (\<lambda>g. (id_g g, partite g, vittorie g, sconfitte g)) (t_giocatori s')
              = map (\<lambda>g. (id_g g, contatori_dopo sq1 sq2 v g)) (t_giocatori s)"
  proof (intro allI impI)
    fix f sq1 sq2 v r s'
    assume "createPartita f s sq1 sq2 v = (Inr r, s')"
    from createPartita_successo [OF pk this]
    have "s' = dopo_partita s sq1 sq2 v (squadra1_delta r) (squadra2_delta r)" by blast
    then show "map (\<lambda>g. (id_g g, partite g, vittorie g, sconfitte g)) (t_giocatori s')
              = map (\<lambda>g. (id_g g, contatori_dopo sq1 sq2 v g)) (t_giocatori s)"
      by (simp only: contatori_dopo_partita)
  qed
  have 4: "\<forall>f n r. non_decrescente s (snd (createGiocatore f s n r))"
    by (simp add: non_decrescente_createGiocatore)
  have 5: "\<forall>f sq1 sq2 v. non_decrescente s (snd (createPartita f s sq1 sq2 v))"
    using pk by (simp add: non_decrescente_createPartita)
  have 6: "\<forall>f. non_decrescente s (insertSampleData f s)"
    by (simp add: non_decrescente_insertSampleData)
  have 7: "\<forall>f. non_decrescente s (snd (resetDatabase (Some ''production'') f s))"
    by (simp add: resetDatabase_def non_decrescente_sottoinsieme)
  from 1 2 3 4 5 6 7 show ?thesis by blast
qed

text \<open>
  An instance: the state after the sample data and one recorded match is reachable;
  its rows have the counters (1, 1, 0), (1, 1, 0), (1, 0, 1), (1, 0, 1), (0, 0, 0) and
  (0, 0, 0), none below its value before the match.  Creating the player Anna after the
  sample data succeeds and appends row 7 with all counters zero.
\<close>

theorem contatori_invariante_witness:
  "raggiungibile (snd (createPartita nessun_guasto (insertSampleData nessun_guasto vuoto) (1, 2) (3, 4) 1))
   \<and> map (\<lambda>g. (partite g, vittorie g, sconfitte g))
        (t_giocatori (snd (createPartita nessun_guasto
                             (insertSampleData nessun_guasto vuoto) (1, 2) (3, 4) 1)))
       = [(1, 1, 0), (1, 1, 0), (1, 0, 1), (1, 0, 1), (0, 0, 0), (0, 0, 0)]
   \<and> list_all contatori_ok
        (t_giocatori (snd (createPartita nessun_guasto
                             (insertSampleData nessun_guasto vuoto) (1, 2) (3, 4) 1)))
   \<and> raggiungibile (insertSampleData nessun_guasto vuoto)
   \<and> fst (createPartita nessun_guasto (insertSampleData nessun_guasto vuoto) (1, 2) (3, 4) 1)
       = Inr \<lparr>id_p = 1, squadra1 = (1, 2), squadra2 = (3, 4), vincitore = 1,
              squadra1_delta = 16, squadra2_delta = - 16\<rparr>
   \<and> non_decrescente (insertSampleData nessun_guasto vuoto)
       (snd (createPartita nessun_guasto (insertSampleData nessun_guasto vuoto) (1, 2) (3, 4) 1))
   \<and> fst (createGiocatore nessun_guasto (insertSampleData nessun_guasto vuoto) ''Anna'' portiere)
       = Inr \<lparr>id_g = 7, nome = ''Anna'', ruolo = portiere, elo = 1500,
              partite = 0, vittorie = 0, sconfitte = 0\<rparr>
   \<and> map (\<lambda>g. (id_g g, partite g, vittorie g, sconfitte g))
       (t_giocatori (snd (createGiocatore nessun_guasto (insertSampleData nessun_guasto vuoto)
                            ''Anna'' portiere)))
       = [(1, 0, 0, 0), (2, 0, 0, 0), (3, 0, 0, 0), (4, 0, 0, 0), (5, 0, 0, 0), (6, 0, 0, 0),
          (7, 0, 0, 0)]
   \<and> non_decrescente (insertSampleData nessun_guasto vuoto)
       (snd (createGiocatore nessun_guasto (insertSampleData nessun_guasto vuoto)
               ''Anna'' portiere))"
proof -
  let ?i = "insertSampleData nessun_guasto vuoto"
  let ?s = "snd (createPartita nessun_guasto ?i (1, 2) (3, 4) 1)"
  have r0: "raggiungibile ?i"
    by (intro raggiungibile.intros)
  have r: "raggiungibile ?s"
    by (intro raggiungibile.intros)
  from contatori_invariante [OF r]
  have c: "list_all contatori_ok (t_giocatori ?s)"
    by (simp add: list_all_iff contatori_ok_def)
  have v: "map (\<lambda>g. (partite g, vittorie g, sconfitte g)) (t_giocatori ?s)
       = [(1, 1, 0), (1, 1, 0), (1, 0, 1), (1, 0, 1), (0, 0, 0), (0, 0, 0)]"
    unfolding createPartita_dopo_esempi by simp
  from contatori_invariante [OF r0]
  have m1: "non_decrescente ?i ?s"
    and m2: "non_decrescente ?i (snd (createGiocatore nessun_guasto ?i ''Anna'' portiere))"
    by blast+
  have p: "fst (createPartita nessun_guasto ?i (1, 2) (3, 4) 1)
       = Inr \<lparr>id_p = 1, squadra1 = (1, 2), squadra2 = (3, 4), vincitore = 1,
              squadra1_delta = 16, squadra2_delta = - 16\<rparr>"
    unfolding insertSampleData_vuoto giocatori_di_esempio_def
    by (simp add: createPartita_def createPartita_try_def createPartita_scrivi_def Let_def
      nessun_guasto_def createConnection_def beginTransaction_def vista_def
      SELECT_id_elo_def crea_eloMap_def execute_def commit_def end_connection_def
      UPDATE_giocatori_def INSERT_partite_def CHECK_vincitore_def
      calcolaELO_1500_v calcolaELO_1500_s)
  have g: "fst (createGiocatore nessun_guasto ?i ''Anna'' portiere)
       = Inr \<lparr>id_g = 7, nome = ''Anna'', ruolo = portiere, elo = 1500,
              partite = 0, vittorie = 0, sconfitte = 0\<rparr>"
    unfolding createGiocatore_dopo_esempi by simp
  have gs: "map (\<lambda>g. (id_g g, partite g, vittorie g, sconfitte g))
       (t_giocatori (snd (createGiocatore nessun_guasto ?i ''Anna'' portiere)))
       = [(1, 0, 0, 0), (2, 0, 0, 0), (3, 0, 0, 0), (4, 0, 0, 0), (5, 0, 0, 0), (6, 0, 0, 0),
          (7, 0, 0, 0)]"
    unfolding createGiocatore_dopo_esempi by (simp add: giocatori_di_esempio_def)
  from r c v r0 p m1 g gs m2 show ?thesis by simp
qed

text \<open>
  Outside production \<open>resetDatabase\<close> does lower counters.  After the sample data and one
  recorded match the player with identifier 1 has played one match; after the reset the
  row with identifier 1 is the fresh sample player, with no match played.  Both states
  are reachable.
\<close>

theorem contatori_resetDatabase_counterexample:
  "raggiungibile (snd (createPartita nessun_guasto (insertSampleData nessun_guasto vuoto) (1, 2) (3, 4) 1))
   \<and> map (\<lambda>g. (id_g g, partite g, vittorie g, sconfitte g))
        (t_giocatori (snd (createPartita nessun_guasto
                             (insertSampleData nessun_guasto vuoto) (1, 2) (3, 4) 1)))
       = [(1, 1, 1, 0), (2, 1, 1, 0), (3, 1, 0, 1), (4, 1, 0, 1), (5, 0, 0, 0), (6, 0, 0, 0)]
   \<and> fst (resetDatabase None nessun_guasto
            (snd (createPartita nessun_guasto
                    (insertSampleData nessun_guasto vuoto) (1, 2) (3, 4) 1))) = Inr True
   \<and> raggiungibile
        (snd (resetDatabase None nessun_guasto
                (snd (createPartita nessun_guasto
                        (insertSampleData nessun_guasto vuoto) (1, 2) (3, 4) 1))))
   \<and> map (\<lambda>g. (id_g g, partite g, vittorie g, sconfitte g))
        (t_giocatori
           (snd (resetDatabase None nessun_guasto
                   (snd (createPartita nessun_guasto
                           (insertSampleData nessun_guasto vuoto) (1, 2) (3, 4) 1)))))
       = [(1, 0, 0, 0), (2, 0, 0, 0), (3, 0, 0, 0), (4, 0, 0, 0), (5, 0, 0, 0), (6, 0, 0, 0)]
   \<and> \<not> non_decrescente
          (snd (createPartita nessun_guasto
                  (insertSampleData nessun_guasto vuoto) (1, 2) (3, 4) 1))
          (snd (resetDatabase None nessun_guasto
                  (snd (createPartita nessun_guasto
                          (insertSampleData nessun_guasto vuoto) (1, 2) (3, 4) 1))))"
proof -
  let ?s = "snd (createPartita nessun_guasto (insertSampleData nessun_guasto vuoto) (1, 2) (3, 4) 1)"
  let ?t = "snd (resetDatabase None nessun_guasto ?s)"
  have r: "raggiungibile ?s"
    by (intro raggiungibile.intros)
  have r': "raggiungibile ?t"
    by (intro raggiungibile.intros)
  have a: "map (\<lambda>g. (id_g g, partite g, vittorie g, sconfitte g)) (t_giocatori ?s)
       = [(1, 1, 1, 0), (2, 1, 1, 0), (3, 1, 0, 1), (4, 1, 0, 1), (5, 0, 0, 0), (6, 0, 0, 0)]"
    unfolding createPartita_dopo_esempi by simp
  have ok: "fst (resetDatabase None nessun_guasto ?s) = Inr True"
    unfolding resetDatabase_dopo_partita by simp
  have b: "map (\<lambda>g. (id_g g, partite g, vittorie g, sconfitte g)) (t_giocatori ?t)
       = [(1, 0, 0, 0), (2, 0, 0, 0), (3, 0, 0, 0), (4, 0, 0, 0), (5, 0, 0, 0), (6, 0, 0, 0)]"
    unfolding resetDatabase_dopo_partita by (simp add: giocatori_di_esempio_def)
  have n: "\<not> non_decrescente ?s ?t"
    unfolding resetDatabase_dopo_partita
    unfolding createPartita_dopo_esempi
    by (simp add: non_decrescente_def giocatori_di_esempio_def)
  from r a ok r' b n show ?thesis by simp
qed

text \<open>
  C8.  When the same identifier appears twice among the four, the \<open>SELECT\<close> returns
  fewer than four rows: \<open>createPartita\<close> throws and leaves the store as it was; the
  error is \<open>UnknownPlayer\<close> unless the driver itself fails on the way.
\<close>

theorem createPartita_duplicati:
  assumes "chiave_primaria s"
    and "\<not> distinct [fst sq1, snd sq1, fst sq2, snd sq2]"
  shows "(\<exists>e. createPartita f s sq1 sq2 v = (Inl e, s))
       \<and> (\<not> f 0 \<and> \<not> f 1 \<and> \<not> f 2 \<and> \<not> f 9 \<longrightarrow>
            createPartita f s sq1 sq2 v = (Inl UnknownPlayer, s))"
proof -
  let ?ids = "[fst sq1, snd sq1, fst sq2, snd sq2]"
  have "length (SELECT_id_elo s ?ids) = 4
      \<longleftrightarrow> distinct ?ids \<and> set ?ids \<subseteq> id_g ` set (t_giocatori s)"
    by (rule quattro_righe [OF assms(1)]) simp
  with assms(2) have n: "length (SELECT_id_elo s ?ids) \<noteq> 4" by blast
  show ?thesis
  proof (intro conjI impI)
    show "\<exists>e. createPartita f s sq1 sq2 v = (Inl e, s)"
      using n by (rule createPartita_meno_di_quattro)
  next
    assume "\<not> f 0 \<and> \<not> f 1 \<and> \<not> f 2 \<and> \<not> f 9"
    with n show "createPartita f s sq1 sq2 v = (Inl UnknownPlayer, s)"
      by (intro createPartita_sconosciuto) blast+
  qed
qed

text \<open>An instance: player 2 in both teams.\<close>

theorem createPartita_duplicati_witness:
  "chiave_primaria scenario1
   \<and> \<not> distinct [fst (1, 2), snd (1, 2), fst (2, 3), snd (2, 3 :: nat)]
   \<and> createPartita nessun_guasto scenario1 (1, 2) (2, 3) 1 = (Inl UnknownPlayer, scenario1)"
proof -
  have d: "\<not> distinct [fst (1, 2), snd (1, 2), fst (2, 3), snd (2, 3 :: nat)]" by simp
  from createPartita_duplicati [OF chiave_scenario1 d, of nessun_guasto 1]
  have "createPartita nessun_guasto scenario1 (1, 2) (2, 3) 1 = (Inl UnknownPlayer, scenario1)"
    by (simp add: nessun_guasto_def)
  with d chiave_scenario1 show ?thesis by simp
qed

text \<open>
  C10 (as amended).  In production \<open>resetDatabase\<close> throws \<open>OperationForbidden\<close> before
  any statement and leaves the store as it was; the guard is the first statement of
  the operation itself.  Outside production, when no driver call fails, it empties
  \<open>partite\<close>, and replaces the rows of \<open>giocatori\<close> by the six sample players.
\<close>

theorem resetDatabase_guardia:
  "resetDatabase (Some ''production'') f s = (Inl OperationForbidden, s)
   \<and> (NODE_ENV \<noteq> Some ''production'' \<and> (\<forall>n\<le>10. \<not> f n) \<longrightarrow>
        resetDatabase NODE_ENV f s =
          (Inr True, \<lparr>t_giocatori = giocatori_di_esempio, giocatori_auto = 7,
                      t_partite = [], partite_auto = 1\<rparr>))"
proof (intro conjI impI)
  show "resetDatabase (Some ''production'') f s = (Inl OperationForbidden, s)"
    by (simp add: resetDatabase_def)
next
  assume a: "NODE_ENV \<noteq> Some ''production'' \<and> (\<forall>n\<le>10. \<not> f n)"
  then have f: "\<not> f 0" "\<not> f 1" "\<not> f 2" "\<not> f 3" by simp_all
  from a have g: "\<forall>n\<le>6. \<not> f (n + 4)" by simp
  have "insertSampleData (\<lambda>n. f (n + 4)) (TRUNCATE_giocatori (TRUNCATE_partite s))
      = (TRUNCATE_partite s)\<lparr>t_giocatori := giocatori_di_esempio, giocatori_auto := 7\<rparr>"
    by (rule insertSampleData_dopo_TRUNCATE) (use g in simp)
  with a f show "resetDatabase NODE_ENV f s =
          (Inr True, \<lparr>t_giocatori = giocatori_di_esempio, giocatori_auto = 7,
                      t_partite = [], partite_auto = 1\<rparr>)"
    by (simp add: resetDatabase_def Let_def TRUNCATE_partite_def)
qed

text \<open>An instance of each part, on the state of scenario 1.\<close>

theorem resetDatabase_guardia_witness:
  "resetDatabase (Some ''production'') nessun_guasto scenario1 = (Inl OperationForbidden, scenario1)
   \<and> resetDatabase (Some ''development'') nessun_guasto scenario1 =
          (Inr True, \<lparr>t_giocatori = giocatori_di_esempio, giocatori_auto = 7,
                      t_partite = [], partite_auto = 1\<rparr>)"
  using resetDatabase_guardia [of nessun_guasto scenario1 "Some ''development''"]
  by (simp add: nessun_guasto_def)

text \<open>
  C10 as stated fails: outside production the reset does not leave the player table
  empty; it holds six rows afterwards.
\<close>

theorem resetDatabase_counterexample:
  "fst (resetDatabase None nessun_guasto scenario1) = Inr True
   \<and> length (t_giocatori (snd (resetDatabase None nessun_guasto scenario1))) = 6"
proof -
  have "resetDatabase None nessun_guasto scenario1 =
          (Inr True, \<lparr>t_giocatori = giocatori_di_esempio, giocatori_auto = 7,
                      t_partite = [], partite_auto = 1\<rparr>)"
    using insertSampleData_dopo_TRUNCATE [of "\<lambda>n. False" "TRUNCATE_partite scenario1"]
    by (simp add: resetDatabase_def nessun_guasto_def Let_def TRUNCATE_partite_def)
  then show ?thesis by (simp add: giocatori_di_esempio_def)
qed

end
